theory Spec2Isabelle
  imports Main "HOL-Library.Word"
begin

section \<open>Data model\<close>

text \<open>
  The plan builder of the cluster upgrade (package \<open>cluster\<close>) assembles a tree of
  \<open>update.Phase\<close> values; the executors of the OpenEBS phases (package \<open>phases\<close>)
  consume the opaque payload of such a phase. Servers carry many fields in the source;
  the builder reads the host name (to form paths) and the advertise address (to identify
  a node), so these two are kept.
\<close>

record Server =
  AdvertiseIP :: string
  Hostname :: string

text \<open>\<open>storage.UpdateServer\<close> embeds \<open>storage.Server\<close>; the embedded value is \<open>UServer\<close>.\<close>

record UpdateServer =
  UServer :: Server
  SELinux :: bool

record ElectionChange =
  EnableServers :: "Server list"
  DisableServers :: "Server list"

text \<open>
  Descriptions are produced with \<open>fmt.Sprintf\<close> and \<open>fmt.Sprint\<close>. The formatting verbs
  are not evaluated: a description is kept as its format string and its arguments.
\<close>

datatype descr =
  Text string
  | Sprintf string "string list"
  | Sprint "string list"

text \<open>
  Modelled from the spec: the executor-kind reference of a phase (``an optional
  executor-kind reference (absent means pure grouping node)''). The source names the
  kinds by string constants declared outside the files at hand; one constructor stands
  for each constant the modelled builders use.
\<close>

datatype executor =
  migrateLinks | updateLabels | migrateRoles
  | updateOpenEBSPool | updateOpenEBSVolume
  | kubeletPermissions | electionStatus
  | updateEtcdBackup | updateEtcdShutdown | updateEtcdMaster
  | updateEtcdRestore | updateEtcdRestart | updateEtcdRestartGravity
  | drainNode | updateSystem | nodeHealth | taintNode | uncordonNode
  | endpoints | untaintNode

text \<open>
  \<open>storage.OperationPhaseData\<close>, with the fields the modelled builders set. Pointers
  that may be nil are options; \<open>Update\<close> holds the \<open>Servers\<close> of
  \<open>storage.UpdateOperationData\<close>; \<open>DataString\<close> is the field \<open>Data\<close> (the opaque
  string payload).
\<close>

record OperationPhaseData =
  Server :: "Server option"
  ExecServer :: "Server option"
  Master :: "Server option"
  Update :: "UpdateServer list option"
  ElectionChange :: "ElectionChange option"
  DataString :: string

definition noData :: OperationPhaseData where
  "noData = \<lparr>Server = None, ExecServer = None, Master = None, Update = None,
     ElectionChange = None, DataString = []\<rparr>"

text \<open>
  \<open>update.Phase\<close>: identifier (a path), executor, description, sub-phases, the
  identifiers of the phases it requires, and the optional data.
\<close>

datatype Phase =
  Phase (ID: string) (Executor: "executor option") (Description: descr)
    (Phases: "Phase list") (Requires: "string list") (Data: "OperationPhaseData option")

section \<open>The phase tree operations\<close>

text \<open>
  The methods of \<open>update.Phase\<close> are declared outside the files at hand. They are
  modelled from the public contract of the spec's phase tree: \<open>newRoot\<close>,
  \<open>addSequential\<close>, \<open>addParallel\<close>, \<open>addWithDependency\<close>, \<open>childPath\<close>.
\<close>

definition withID :: "Phase \<Rightarrow> string \<Rightarrow> Phase" where
  "withID p i = Phase i (Executor p) (Description p) (Phases p) (Requires p) (Data p)"

definition withDescription :: "Phase \<Rightarrow> descr \<Rightarrow> Phase" where
  "withDescription p d = Phase (ID p) (Executor p) d (Phases p) (Requires p) (Data p)"

definition withPhases :: "Phase \<Rightarrow> Phase list \<Rightarrow> Phase" where
  "withPhases p ps = Phase (ID p) (Executor p) (Description p) ps (Requires p) (Data p)"

text \<open>
  Modelled from the spec: a phase is ``identified by a hierarchical path (parent path +
  child segment)''; \<open>ChildLiteral\<close> is the spec's \<open>childPath(segment)\<close> and joins the
  parent's path and the segment with a slash. The segment is taken as it is: the model
  does not normalise a segment that itself holds a slash or is empty.
\<close>

definition ChildLiteral :: "Phase \<Rightarrow> string \<Rightarrow> string" where
  "ChildLiteral p sub = ID p @ ''/'' @ sub"

text \<open>Modelled from the spec: \<open>Child\<close> is \<open>childPath\<close> at the identifier of a phase.\<close>

definition Child :: "Phase \<Rightarrow> Phase \<Rightarrow> string" where
  "Child p sub = ChildLiteral p (ID sub)"

text \<open>
  Modelled from the spec: \<open>RootPhase\<close> is the spec's \<open>newRoot(id, description)\<close>; the
  phase becomes a child of the (empty) root path.
\<close>

definition RootPhase :: "Phase \<Rightarrow> Phase" where
  "RootPhase sub = withID sub (''/'' @ ID sub)"

text \<open>
  Modelled from the spec: \<open>Require\<close> adds one dependency reference to the ``set of
  dependency references to other phases'' of a phase.
\<close>

definition Require :: "Phase \<Rightarrow> string \<Rightarrow> Phase" where
  "Require p req =
     Phase (ID p) (Executor p) (Description p) (Phases p) (Requires p @ [req]) (Data p)"

text \<open>
  Modelled from the spec: \<open>AddParallel\<close> is the spec's \<open>addParallel(children...)\<close>,
  ``no ordering among siblings, attached at the same tree position''.
\<close>

definition AddParallel :: "Phase \<Rightarrow> Phase list \<Rightarrow> Phase" where
  "AddParallel p sub = withPhases p (Phases p @ sub)"

text \<open>
  Modelled from the spec: \<open>Add\<close> attaches a group whose children carry their own
  dependency references (``separate parallel groups'' of the consensus-store sub-plan);
  the group itself is attached as it is.
\<close>

definition Add :: "Phase \<Rightarrow> Phase list \<Rightarrow> Phase" where
  "Add p sub = withPhases p (Phases p @ sub)"

text \<open>
  Modelled from the spec: \<open>AddSequential\<close> is the spec's \<open>addSequential(children...)\<close>,
  ``strict order, each gated on the previous succeeding'': a child requires the child
  attached last before it, if there is one.
\<close>

definition addSequential1 :: "Phase \<Rightarrow> Phase \<Rightarrow> Phase" where
  "addSequential1 p s =
     withPhases p (Phases p @
       [if Phases p = [] then s else Require s (ID (last (Phases p)))])"

definition AddSequential :: "Phase \<Rightarrow> Phase list \<Rightarrow> Phase" where
  "AddSequential p sub = foldl addSequential1 p sub"

text \<open>
  Modelled from the spec: \<open>AddWithDependency\<close> is the spec's
  \<open>addWithDependency(depRefs, child)\<close>: the child ``may start only once every phase in
  its explicit dependency set has succeeded, regardless of tree position''.
\<close>

definition AddWithDependency :: "Phase \<Rightarrow> string \<Rightarrow> Phase list \<Rightarrow> Phase" where
  "AddWithDependency p dep sub = withPhases p (Phases p @ map (\<lambda>s. Require s dep) sub)"

text \<open>
  Modelled from the spec: a dependency reference is ``optionally scoped to a specific
  node/target''. \<open>DependencyForServer phase server\<close> refers to the first sub-phase of
  \<open>phase\<close> whose target node is \<open>server\<close> (nodes are identified by their advertise
  address), and to \<open>phase\<close> itself when it has no such sub-phase.
\<close>

definition targets :: "Server \<Rightarrow> Phase \<Rightarrow> bool" where
  "targets server subphase =
     (case Data subphase of
        None \<Rightarrow> False
      | Some d \<Rightarrow>
          (case Server d of
             None \<Rightarrow> False
           | Some s \<Rightarrow> AdvertiseIP s = AdvertiseIP server))"

definition DependencyForServer :: "Phase \<Rightarrow> Server \<Rightarrow> string" where
  "DependencyForServer phase server =
     (case find (targets server) (Phases phase) of
        Some subphase \<Rightarrow> ID subphase
      | None \<Rightarrow> ID phase)"

section \<open>Leader election changes\<close>

text \<open>The struct \<open>electionChanges\<close>; its field \<open>id\<close> is \<open>id_str\<close> here.\<close>

record electionChanges =
  enable :: "Server list"
  disable :: "Server list"
  description :: descr
  id_str :: string

text \<open>The zero value \<open>electionChanges{}\<close>.\<close>

definition electionChanges_zero :: electionChanges where
  "electionChanges_zero = \<lparr>enable = [], disable = [], description = Text [], id_str = []\<rparr>"

definition shouldAddPhase :: "electionChanges \<Rightarrow> bool" where
  "shouldAddPhase e =
     (if length (enable e) \<noteq> 0 \<or> length (disable e) \<noteq> 0 then True else False)"

definition electionChanges_ID :: "electionChanges \<Rightarrow> string" where
  "electionChanges_ID e = (if id_str e \<noteq> [] then id_str e else ''elect'')"

definition serversToStorage :: "UpdateServer list \<Rightarrow> Server list" where
  "serversToStorage updates = foldl (\<lambda>result u. result @ [UServer u]) [] updates"

definition setLeaderElection :: "electionChanges \<Rightarrow> UpdateServer \<Rightarrow> Phase" where
  "setLeaderElection ec server =
     Phase (electionChanges_ID ec) (Some electionStatus) (description ec) [] []
       (Some (noData\<lparr>Server := Some (UServer server),
          ElectionChange := Some \<lparr>EnableServers = enable ec, DisableServers = disable ec\<rparr>\<rparr>))"

section \<open>The common node sequence\<close>

text \<open>
  \<open>commonNode\<close> returns the operations any node runs to upgrade its system software.
  The source appends to a slice under three flags; the model appends the same phases in
  the same order.
\<close>

definition commonNode ::
  "UpdateServer \<Rightarrow> UpdateServer \<Rightarrow> bool \<Rightarrow> bool \<Rightarrow> electionChanges \<Rightarrow> Phase list" where
  "commonNode server leadMaster supportsTaints waitsForEndpoints ec =
     (let phases =
        [Phase ''drain'' (Some drainNode) (Sprintf ''Drain node %q'' [Hostname (UServer server)])
           [] []
           (Some (noData\<lparr>Server := Some (UServer server),
              ExecServer := Some (UServer leadMaster)\<rparr>)),
         Phase ''system-upgrade'' (Some updateSystem)
           (Sprintf ''Update system software on node %q'' [Hostname (UServer server)]) [] []
           (Some (noData\<lparr>ExecServer := Some (UServer server), Update := Some [server]\<rparr>))];
      phases =
        (if shouldAddPhase ec then phases @ [setLeaderElection ec server] else phases);
      phases = phases @
        [Phase ''health'' (Some nodeHealth)
           (Sprintf ''Health check node %q'' [Hostname (UServer server)]) [] []
           (Some (noData\<lparr>Server := Some (UServer server)\<rparr>))];
      phases =
        (if supportsTaints then phases @
           [Phase ''taint'' (Some taintNode)
              (Sprintf ''Taint node %q'' [Hostname (UServer server)]) [] []
              (Some (noData\<lparr>Server := Some (UServer server),
                 ExecServer := Some (UServer leadMaster)\<rparr>))]
         else phases);
      phases = phases @
        [Phase ''uncordon'' (Some uncordonNode)
           (Sprintf ''Uncordon node %q'' [Hostname (UServer server)]) [] []
           (Some (noData\<lparr>Server := Some (UServer server),
              ExecServer := Some (UServer leadMaster)\<rparr>))];
      phases =
        (if waitsForEndpoints then phases @
           [Phase ''endpoints'' (Some endpoints)
              (Sprintf ''Wait for DNS/cluster endpoints on %q'' [Hostname (UServer server)])
              [] []
              (Some (noData\<lparr>Server := Some (UServer server),
                 ExecServer := Some (UServer leadMaster)\<rparr>))]
         else phases);
      phases =
        (if supportsTaints then phases @
           [Phase ''untaint'' (Some untaintNode)
              (Sprintf ''Remove taint from node %q'' [Hostname (UServer server)]) [] []
              (Some (noData\<lparr>Server := Some (UServer server),
                 ExecServer := Some (UServer leadMaster)\<rparr>))]
         else phases)
      in phases)"

section \<open>The master sequence\<close>

text \<open>\<open>node\<close> creates the grouping phase of one server under a parent phase.\<close>

definition node :: "Server \<Rightarrow> Phase \<Rightarrow> string \<Rightarrow> Phase" where
  "node server parent format =
     Phase (ChildLiteral parent (Hostname server)) None (Sprintf format [Hostname server])
       [] [] None"

text \<open>
  \<open>masters\<close> builds the phase that upgrades the master servers: \<open>leadMaster\<close> first,
  then the \<open>otherMasters\<close> (which may be empty), one after another.
\<close>

definition masters_other :: "UpdateServer \<Rightarrow> bool \<Rightarrow> Phase \<Rightarrow> UpdateServer \<Rightarrow> Phase" where
  "masters_other leadMaster supportsTaints root server =
     (let n = node (UServer server) root ''Update system software on master node %q'';
          ec = \<lparr>enable = serversToStorage [server], disable = [],
                 description =
                   Sprintf ''Enable leader election on node %q'' [Hostname (UServer server)],
                 id_str = []\<rparr>;
          n = AddSequential n (commonNode server leadMaster supportsTaints True ec)
      in AddSequential root [n])"

definition masters_lead :: "UpdateServer \<Rightarrow> UpdateServer list \<Rightarrow> bool \<Rightarrow> Phase \<Rightarrow> Phase" where
  "masters_lead leadMaster otherMasters supportsTaints root =
     (let n = node (UServer leadMaster) root ''Update system software on master node %q''
      in if length otherMasters \<noteq> 0 then
           (let n = AddSequential n
                  [Phase ''kubelet-permissions'' (Some kubeletPermissions)
                     (Sprintf ''Add permissions to kubelet on %q''
                        [Hostname (UServer leadMaster)]) [] []
                     (Some (noData\<lparr>Server := Some (UServer leadMaster)\<rparr>))];
                n = AddSequential n
                  [setLeaderElection
                     \<lparr>enable = [], disable = serversToStorage [leadMaster],
                      description =
                        Sprintf ''Step down %q as Kubernetes leader''
                          [Hostname (UServer leadMaster)],
                      id_str = ''stepdown''\<rparr>
                     leadMaster];
                ec = \<lparr>enable = serversToStorage [leadMaster],
                       disable = serversToStorage otherMasters,
                       description =
                         Sprintf ''Make node %q Kubernetes leader''
                           [Hostname (UServer leadMaster)],
                       id_str = []\<rparr>
            in AddSequential n (commonNode leadMaster leadMaster supportsTaints False ec))
         else
           AddSequential n
             (commonNode leadMaster leadMaster supportsTaints True electionChanges_zero))"

definition masters :: "UpdateServer \<Rightarrow> UpdateServer list \<Rightarrow> bool \<Rightarrow> Phase" where
  "masters leadMaster otherMasters supportsTaints =
     (let root = RootPhase (Phase ''masters'' None (Text ''Update master nodes'') [] [] None);
          n = masters_lead leadMaster otherMasters supportsTaints root;
          root = AddSequential root [n]
      in foldl (masters_other leadMaster supportsTaints) root otherMasters)"

section \<open>The etcd upgrade plan\<close>

definition etcdPhaseName :: string where
  "etcdPhaseName = ''etcd''"

definition etcdBackupNode :: "Server \<Rightarrow> Phase \<Rightarrow> Phase" where
  "etcdBackupNode server parent =
     Phase (ChildLiteral parent (Hostname server)) (Some updateEtcdBackup)
       (Sprintf ''Backup etcd on node %q'' [Hostname server]) [] []
       (Some (noData\<lparr>Server := Some server\<rparr>))"

text \<open>\<open>strconv.FormatBool\<close>.\<close>

definition FormatBool :: "bool \<Rightarrow> string" where
  "FormatBool b = (if b then ''true'' else ''false'')"

definition etcdShutdownNode :: "Server \<Rightarrow> Phase \<Rightarrow> bool \<Rightarrow> Phase" where
  "etcdShutdownNode server parent isLeader =
     Phase (ChildLiteral parent (Hostname server)) (Some updateEtcdShutdown)
       (Sprintf ''Shutdown etcd on node %q'' [Hostname server]) [] []
       (Some (noData\<lparr>Server := Some server, DataString := FormatBool isLeader\<rparr>))"

definition etcdUpgrade :: "Server \<Rightarrow> Phase \<Rightarrow> Phase" where
  "etcdUpgrade server parent =
     Phase (ChildLiteral parent (Hostname server)) (Some updateEtcdMaster)
       (Sprintf ''Upgrade etcd on node %q'' [Hostname server]) [] []
       (Some (noData\<lparr>Server := Some server\<rparr>))"

definition etcdRestart :: "Server \<Rightarrow> Server \<Rightarrow> Phase \<Rightarrow> Phase" where
  "etcdRestart server leadMaster parent =
     Phase (ChildLiteral parent (Hostname server)) (Some updateEtcdRestart)
       (Sprintf ''Restart etcd on node %q'' [Hostname server]) [] []
       (Some (noData\<lparr>Server := Some server, Master := Some leadMaster\<rparr>))"

text \<open>
  \<open>etcdPlan\<close> builds the five stages backup, shutdown, upgrade, restore and restart.
  Each stage is a local variable of the source, built by one block of the function; the
  blocks are the definitions \<open>etcdPlan_backup\<close> to \<open>etcdPlan_restart\<close>, in the order
  of the source. A stage handed to \<open>AddSequential\<close> or \<open>Add\<close> is copied into the root,
  so a later \<open>DependencyForServer\<close> reads the local variable. The constant
  \<open>constants.GravityServiceName\<close> is declared outside the files at hand and is the
  parameter \<open>GravityServiceName\<close>.
\<close>

definition etcdPlan_backup :: "Phase \<Rightarrow> Server \<Rightarrow> Server list \<Rightarrow> Phase" where
  "etcdPlan_backup root leadMaster otherMasters =
     (let backupEtcd = Phase (ChildLiteral root ''backup'') None (Text ''Backup etcd data'')
                         [] [] None;
          backupEtcd = AddParallel backupEtcd [etcdBackupNode leadMaster backupEtcd]
      in foldl (\<lambda>backupEtcd server.
                  AddParallel backupEtcd [etcdBackupNode server backupEtcd])
           backupEtcd otherMasters)"

definition etcdPlan_shutdown :: "Phase \<Rightarrow> Phase \<Rightarrow> Server \<Rightarrow> Server list \<Rightarrow> Phase" where
  "etcdPlan_shutdown root backupEtcd leadMaster otherMasters =
     (let shutdownEtcd = Phase (ChildLiteral root ''shutdown'') None
                           (Text ''Shutdown etcd cluster'') [] [] None;
          shutdownEtcd = AddWithDependency shutdownEtcd
                           (DependencyForServer backupEtcd leadMaster)
                           [etcdShutdownNode leadMaster shutdownEtcd True]
      in foldl (\<lambda>shutdownEtcd server.
                  AddWithDependency shutdownEtcd (DependencyForServer backupEtcd server)
                    [etcdShutdownNode server shutdownEtcd False])
           shutdownEtcd otherMasters)"

definition etcdPlan_upgrade :: "Phase \<Rightarrow> Phase \<Rightarrow> Server \<Rightarrow> Server list \<Rightarrow> Phase" where
  "etcdPlan_upgrade root shutdownEtcd leadMaster otherMasters =
     (let upgradeServers = Phase (ChildLiteral root ''upgrade'') None
                             (Text ''Upgrade etcd servers'') [] [] None;
          upgradeServers = AddWithDependency upgradeServers
                             (DependencyForServer shutdownEtcd leadMaster)
                             [etcdUpgrade leadMaster upgradeServers]
      in foldl (\<lambda>upgradeServers server.
                  AddWithDependency upgradeServers (DependencyForServer shutdownEtcd server)
                    [etcdUpgrade server upgradeServers])
           upgradeServers otherMasters)"

definition etcdPlan_restore :: "Phase \<Rightarrow> Server \<Rightarrow> Phase" where
  "etcdPlan_restore root leadMaster =
     Phase (ChildLiteral root ''restore'') (Some updateEtcdRestore)
       (Text ''Restore etcd data from backup'') [] []
       (Some (noData\<lparr>Server := Some leadMaster\<rparr>))"

definition etcdPlan_restart ::
  "string \<Rightarrow> Phase \<Rightarrow> Phase \<Rightarrow> Phase \<Rightarrow> Server \<Rightarrow> Server list \<Rightarrow> Phase" where
  "etcdPlan_restart GravityServiceName root restoreData upgradeServers leadMaster otherMasters =
     (let restartMasters = Phase (ChildLiteral root ''restart'') None
                             (Text ''Restart etcd servers'') [] [] None;
          restartMasters = AddWithDependency restartMasters
                             (DependencyForServer restoreData leadMaster)
                             [etcdRestart leadMaster leadMaster restartMasters];
          restartMasters = foldl (\<lambda>restartMasters server.
                              AddWithDependency restartMasters
                                (DependencyForServer upgradeServers server)
                                [etcdRestart server leadMaster restartMasters])
                            restartMasters otherMasters
      in AddParallel restartMasters
           [Phase (ChildLiteral restartMasters GravityServiceName)
              (Some updateEtcdRestartGravity)
              (Sprint [''Restart '', GravityServiceName, '' service''])
              [] [] (Some (noData\<lparr>Server := Some leadMaster\<rparr>))])"

definition etcdPlan ::
  "string \<Rightarrow> Server \<Rightarrow> Server list \<Rightarrow> Server list \<Rightarrow> string \<Rightarrow> string \<Rightarrow> Phase" where
  "etcdPlan GravityServiceName leadMaster otherMasters workers currentVersion desiredVersion =
     (let root = RootPhase
            (Phase etcdPhaseName None
               (Sprintf ''Upgrade etcd %v to %v'' [currentVersion, desiredVersion]) [] [] None);
          root = (if currentVersion = [] then
                    withDescription root (Sprintf ''Upgrade etcd to %v'' [desiredVersion])
                  else root);
          backupEtcd = etcdPlan_backup root leadMaster otherMasters;
          root = AddSequential root [backupEtcd];
          shutdownEtcd = etcdPlan_shutdown root backupEtcd leadMaster otherMasters;
          root = Add root [shutdownEtcd];
          upgradeServers = etcdPlan_upgrade root shutdownEtcd leadMaster otherMasters;
          root = Add root [upgradeServers];
          restoreData = etcdPlan_restore root leadMaster;
          root = AddSequential root [restoreData];
          restartMasters = etcdPlan_restart GravityServiceName root restoreData upgradeServers
                             leadMaster otherMasters;
          root = Add root [restartMasters]
      in root)"

section \<open>The migration phase\<close>

text \<open>
  The fields of the plan configuration that \<open>migration\<close> reads. The predicate
  \<open>NeedMigrateRoles\<close> of package \<open>phases\<close> is declared outside the files at hand and
  is a parameter.
\<close>

record ('l, 't, 'r) planConfig =
  links :: "'l list"
  trustedClusters :: "'t list"
  roles :: "'r list"

text \<open>
  \<open>migration\<close> returns a pointer to the phase, or nil (\<open>None\<close>) when the list of
  sub-phases is empty.
\<close>

definition migration ::
  "('r list \<Rightarrow> bool) \<Rightarrow> ('l, 't, 'r) planConfig \<Rightarrow> Server \<Rightarrow> Phase option" where
  "migration NeedMigrateRoles r leadMaster =
     (let root = RootPhase
            (Phase ''migration'' None (Text ''Perform system database migration'') [] [] None);
          subphases = [];
          subphases =
            (if length (links r) \<noteq> 0 \<and> length (trustedClusters r) = 0 then
               subphases @
                 [Phase (ChildLiteral root ''links'') (Some migrateLinks)
                    (Text ''Migrate remote Gravity Hub links to trusted clusters'') [] [] None]
             else subphases);
          subphases = subphases @
            [Phase (ChildLiteral root ''labels'') (Some updateLabels)
               (Text ''Update node labels'') [] [] None];
          subphases =
            (if NeedMigrateRoles (roles r) then
               subphases @
                 [Phase (ChildLiteral root ''roles'') (Some migrateRoles)
                    (Text ''Migrate cluster roles to a new format'') [] []
                    (Some (noData\<lparr>ExecServer := Some leadMaster\<rparr>))]
             else subphases)
      in if length subphases = 0 then None else Some (AddParallel root subphases))"

section \<open>Strings and errors\<close>

text \<open>
  Errors: \<open>trace.NotFound\<close> errors are told apart from all others by
  \<open>trace.IsNotFound\<close>; \<open>trace.Wrap\<close> keeps the kind.
\<close>

datatype error = NotFound string | Failure string

definition IsNotFound :: "error \<Rightarrow> bool" where
  "IsNotFound e = (case e of NotFound _ \<Rightarrow> True | Failure _ \<Rightarrow> False)"

text \<open>
  \<open>strings.Split s sep\<close> for a separator of one character: the substrings between the
  separators; a string without separator (also the empty string) gives one substring.
\<close>

fun Split :: "string \<Rightarrow> char \<Rightarrow> string list" where
  "Split [] sep = [[]]"
| "Split (c # cs) sep =
     (if c = sep then [] # Split cs sep
      else (case Split cs sep of
              [] \<Rightarrow> [[c]]
            | w # ws \<Rightarrow> (c # w) # ws))"

text \<open>\<open>strings.TrimPrefix\<close>.\<close>

definition TrimPrefix :: "string \<Rightarrow> string \<Rightarrow> string" where
  "TrimPrefix s pre = (if take (length pre) s = pre then drop (length pre) s else s)"

section \<open>The OpenEBS upgrade phases of the plan\<close>

text \<open>
  \<open>openEBSUpgrade\<close> runs one query for the pools and one for the volumes
  (\<open>utils.Exec\<close>, here the pair of the captured output and the error of each query) and
  attaches one phase per line of each output to \<open>root\<close>, which the source updates
  through a pointer: the model returns the error together with \<open>root\<close> as the call
  leaves it. The second query runs only after the pool phases are attached.
\<close>

definition openEBSPoolPhase :: "string \<Rightarrow> Phase" where
  "openEBSPoolPhase poolAndVer =
     Phase ''openebs-upgrade-pool'' (Some updateOpenEBSPool)
       (Sprintf ''Upgrade OpenEBS cStor pool: %v'' [poolAndVer]) [] []
       (Some (noData\<lparr>DataString := poolAndVer\<rparr>))"

definition openEBSVolumePhase :: "Phase \<Rightarrow> string \<Rightarrow> Phase" where
  "openEBSVolumePhase root volAndVer =
     Phase (ChildLiteral root ''openebs-upgrade-volume'') (Some updateOpenEBSVolume)
       (Sprintf ''Upgrade OpenEBS cStor volume: %v'' [volAndVer]) [] []
       (Some (noData\<lparr>DataString := volAndVer\<rparr>))"

fun openEBSUpgrade ::
  "string \<times> error option \<Rightarrow> string \<times> error option \<Rightarrow> UpdateServer \<Rightarrow> Phase
     \<Rightarrow> error option \<times> Phase" where
  "openEBSUpgrade (poolsOut, poolsErr) (volumesOut, volumesErr) leadMaster root =
     (case poolsErr of
        Some err \<Rightarrow> (Some err, root)
      | None \<Rightarrow>
          if length poolsOut = 0 then (Some (Failure ''failed to get pool info''), root)
          else
            (let poolsAndVersion = Split poolsOut (CHR 0x0A);
                 root = foldl (\<lambda>root poolAndVer.
                          AddSequential root [openEBSPoolPhase poolAndVer])
                        root poolsAndVersion
             in case volumesErr of
                  Some err \<Rightarrow> (Some err, root)
                | None \<Rightarrow>
                    if length volumesOut = 0 then
                      (Some (Failure ''failed to get pool info''), root)
                    else
                      (let volumesAndVersion = Split volumesOut (CHR 0x0A);
                           root = foldl (\<lambda>root volAndVer.
                                    AddSequential root [openEBSVolumePhase root volAndVer])
                                  root volumesAndVersion
                       in (None, root))))"

section \<open>The executors of the OpenEBS upgrade phases\<close>

text \<open>
  A call of the source either panics (a read out of range, a nil pointer) or returns a
  value and an error.
\<close>

datatype 'a outcome = Panic string | Return 'a "error option"

record PhaseUpgradePool =
  Pool :: string
  PoolFromVersion :: string
  PoolToVersion :: string

record PhaseUpgradeVolume =
  Volume :: string
  VolumeFromVersion :: string
  VolumeToVersion :: string

text \<open>
  The constructors split the payload at single spaces and read the fields 0, 1 and 2.
  Reading a slice out of range panics; so does reading the data of a phase without data.
  The fields \<open>FromVersion\<close> and \<open>ToVersion\<close> of the two structs carry the name of their
  struct as a prefix here.
\<close>

definition NewPhaseUpgradePool :: "Phase \<Rightarrow> PhaseUpgradePool outcome" where
  "NewPhaseUpgradePool phase =
     (case Data phase of
        None \<Rightarrow> Panic ''nil pointer dereference''
      | Some d \<Rightarrow>
          (let poolAndVer = Split (DataString d) (CHR '' '')
           in if length poolAndVer < 3 then Panic ''index out of range''
              else Return \<lparr>Pool = poolAndVer ! 0, PoolFromVersion = poolAndVer ! 1,
                     PoolToVersion = poolAndVer ! 2\<rparr> None))"

definition NewPhaseUpgradeVolume :: "Phase \<Rightarrow> PhaseUpgradeVolume outcome" where
  "NewPhaseUpgradeVolume phase =
     (case Data phase of
        None \<Rightarrow> Panic ''nil pointer dereference''
      | Some d \<Rightarrow>
          (let volAndVer = Split (DataString d) (CHR '' '')
           in if length volAndVer < 3 then Panic ''index out of range''
              else Return \<lparr>Volume = volAndVer ! 0, VolumeFromVersion = volAndVer ! 1,
                     VolumeToVersion = volAndVer ! 2\<rparr> None))"

text \<open>
  \<open>execUpgradeJob\<close> drives one upgrade job. Its collaborators (the template, the file
  system, \<open>kubectl apply\<close>, the job runner and the cluster API) are the fields of
  \<open>jobEnv\<close>: each gives the result the collaborator returns when called.
  \<open>GetJobFailed\<close> fetches the job and reads \<open>job.Status.Failed\<close>, a 32-bit
  integer; \<open>Wait\<close> is \<open>runner.Wait\<close>. The source holds two copies of the function:
  \<open>execUpgradeJob\<close> is the one beside the plan builder, \<open>execUpgradeJob_wait\<close> (below)
  the one that calls \<open>runner.Wait\<close>.
\<close>

record JobRef =
  JobRef_Name :: string
  JobRef_Namespace :: string

record jobEnv =
  Execute :: "error + string"
  WriteFile :: "string \<Rightarrow> string \<Rightarrow> error option"
  Apply :: "string \<Rightarrow> string \<times> error option"
  NewRunner :: "error option"
  Wait :: "JobRef \<Rightarrow> error option"
  StreamLogs :: "JobRef \<Rightarrow> string \<times> error option"
  GetJobFailed :: "string \<Rightarrow> string \<Rightarrow> error + 32 word"

definition k8sNamespace :: string where
  "k8sNamespace = ''openebs''"

definition execUpgradeJob :: "jobEnv \<Rightarrow> string \<Rightarrow> string \<times> error option" where
  "execUpgradeJob env jobName =
     (case Execute env of
        Inl err \<Rightarrow> ([], Some err)
      | Inr buf \<Rightarrow>
          (let jobFile = ''openebs_data_plane_component_upgrade.yaml''
           in case WriteFile env jobFile buf of
                Some err \<Rightarrow> ([], Some err)
              | None \<Rightarrow>
                  (case Apply env jobFile of
                     (out, Some err) \<Rightarrow> (''Failed to exec kubectl: '' @ out, Some err)
                   | (out, None) \<Rightarrow>
                       (case NewRunner env of
                          Some err \<Rightarrow> ([], Some err)
                        | None \<Rightarrow>
                            (let jobRef = \<lparr>JobRef_Name = jobName,
                                   JobRef_Namespace = k8sNamespace\<rparr>
                             in case StreamLogs env jobRef of
                                  (logs, Some err) \<Rightarrow> (logs, Some err)
                                | (logs, None) \<Rightarrow>
                                    (case GetJobFailed env (JobRef_Namespace jobRef)
                                            (JobRef_Name jobRef) of
                                       Inl err \<Rightarrow> (logs, Some err)
                                     | Inr failed \<Rightarrow>
                                         if failed \<noteq> 0 then
                                           (logs,
                                            Some (Failure ''upgrade job has failed pods''))
                                         else (logs, None)))))))"

text \<open>
  The second copy of \<open>execUpgradeJob\<close> in the source. It waits for the job with
  \<open>runner.Wait\<close>, then streams the logs, and returns them with no error. It has no
  call that fetches the job, so \<open>GetJobFailed\<close> is not read.
\<close>

definition execUpgradeJob_wait :: "jobEnv \<Rightarrow> string \<Rightarrow> string \<times> error option" where
  "execUpgradeJob_wait env jobName =
     (case Execute env of
        Inl err \<Rightarrow> ([], Some err)
      | Inr buf \<Rightarrow>
          (let upgradeJobFile = ''openebs_data_plane_component_upgrade.yaml''
           in case WriteFile env upgradeJobFile buf of
                Some err \<Rightarrow> ([], Some err)
              | None \<Rightarrow>
                  (case Apply env upgradeJobFile of
                     (kubectlJobOut, Some err) \<Rightarrow>
                       (''Failed to upgrade openEBS data plane component. Output ''
                          @ kubectlJobOut @ '':'', Some err)
                   | (kubectlJobOut, None) \<Rightarrow>
                       (case NewRunner env of
                          Some err \<Rightarrow> ([], Some err)
                        | None \<Rightarrow>
                            (let namespace = ''openebs''
                             in case Wait env \<lparr>JobRef_Name = jobName,
                                       JobRef_Namespace = namespace\<rparr> of
                                  Some err \<Rightarrow> ([], Some err)
                                | None \<Rightarrow>
                                    (case StreamLogs env \<lparr>JobRef_Name = jobName,
                                            JobRef_Namespace = namespace\<rparr> of
                                       (upgradeJobLog, Some err) \<Rightarrow> ([], Some err)
                                     | (upgradeJobLog, None) \<Rightarrow>
                                         (upgradeJobLog, None)))))))"

section \<open>The etcd version check\<close>

text \<open>
  \<open>shouldUpdateEtcd\<close> reads the runtime packages of the installed and of the update
  application and the labels of their package manifests. The lookups and the version
  library (\<open>semver.NewVersion\<close>, \<open>Compare\<close>, \<open>String\<close>) are declared outside the files
  at hand and are the fields of \<open>etcdEnv\<close>; \<open>NewVersion\<close> gives \<open>None\<close> when the text is
  no version.
\<close>

record Label =
  Label_Name :: string
  Label_Value :: string

record ('loc, 'v) etcdEnv =
  installedDefaultRuntimePackage :: "error + 'loc"
  installedLegacyPlanetMaster :: "error + 'loc"
  updateDefaultRuntimePackage :: "error + 'loc"
  GetPackageManifest :: "'loc \<Rightarrow> error + Label list"
  NewVersion :: "string \<Rightarrow> 'v option"
  Compare :: "'v \<Rightarrow> 'v \<Rightarrow> int"
  String :: "'v \<Rightarrow> string"

text \<open>The loop of \<open>getEtcdVersion\<close> over the labels: the first label of the name decides.\<close>

fun findVersion :: "(string \<Rightarrow> 'v option) \<Rightarrow> string \<Rightarrow> Label list \<Rightarrow> error + 'v" where
  "findVersion parse searchLabel [] =
     Inl (NotFound ''package manifest does not have label'')"
| "findVersion parse searchLabel (label # labels) =
     (if Label_Name label = searchLabel then
        (case parse (TrimPrefix (Label_Value label) ''v'') of
           None \<Rightarrow> Inl (Failure ''not a semantic version'')
         | Some version \<Rightarrow> Inr version)
      else findVersion parse searchLabel labels)"

definition getEtcdVersion :: "('loc, 'v) etcdEnv \<Rightarrow> string \<Rightarrow> 'loc \<Rightarrow> error + 'v" where
  "getEtcdVersion p searchLabel locator =
     (case GetPackageManifest p locator of
        Inl err \<Rightarrow> Inl err
      | Inr labels \<Rightarrow> findVersion (NewVersion p) searchLabel labels)"

text \<open>
  The second half of \<open>shouldUpdateEtcd\<close>, from the lookup of the update's runtime
  package on: \<open>installedVersion\<close> is nil (\<open>None\<close>) when the installed package has no
  version, and \<open>updateEtcd\<close> is the flag as set so far.
\<close>

definition shouldUpdateEtcd_update ::
  "('loc, 'v) etcdEnv \<Rightarrow> 'v option \<Rightarrow> bool \<Rightarrow> bool \<times> string \<times> string \<times> error option" where
  "shouldUpdateEtcd_update p installedVersion updateEtcd =
     (case updateDefaultRuntimePackage p of
        Inl err \<Rightarrow> (False, [], [], Some err)
      | Inr runtimePackage \<Rightarrow>
          (case getEtcdVersion p ''version-etcd'' runtimePackage of
             Inl err \<Rightarrow> (False, [], [], Some err)
           | Inr updateVersion \<Rightarrow>
               (let updateEtcd =
                      (case installedVersion of
                         None \<Rightarrow> True
                       | Some v \<Rightarrow> if Compare p v updateVersion < 0 then True else updateEtcd);
                    installedEtcdVersion =
                      (case installedVersion of None \<Rightarrow> [] | Some v \<Rightarrow> String p v)
                in (updateEtcd, installedEtcdVersion, String p updateVersion, None))))"

definition shouldUpdateEtcd_installed ::
  "('loc, 'v) etcdEnv \<Rightarrow> 'loc \<Rightarrow> bool \<times> string \<times> string \<times> error option" where
  "shouldUpdateEtcd_installed p runtimePackage =
     (case getEtcdVersion p ''version-etcd'' runtimePackage of
        Inl err \<Rightarrow>
          if \<not> IsNotFound err then (False, [], [], Some err)
          else shouldUpdateEtcd_update p None True
      | Inr installedVersion \<Rightarrow> shouldUpdateEtcd_update p (Some installedVersion) False)"

definition shouldUpdateEtcd ::
  "('loc, 'v) etcdEnv \<Rightarrow> bool \<times> string \<times> string \<times> error option" where
  "shouldUpdateEtcd p =
     (case installedDefaultRuntimePackage p of
        Inl err \<Rightarrow>
          if \<not> IsNotFound err then (False, [], [], Some err)
          else
            (case installedLegacyPlanetMaster p of
               Inl err' \<Rightarrow> (False, [], [], Some (NotFound ''runtime package not found''))
             | Inr runtimePackage \<Rightarrow> shouldUpdateEtcd_installed p runtimePackage)
      | Inr runtimePackage \<Rightarrow> shouldUpdateEtcd_installed p runtimePackage)"

section \<open>Reading a plan\<close>

text \<open>The phases of a tree in pre-order: a phase, then its sub-phases from the first on.\<close>

fun flatten :: "Phase \<Rightarrow> Phase list" where
  "flatten (Phase i e d ps rs dt) = Phase i e d ps rs dt # concat (map flatten ps)"

text \<open>The target node of a phase: the server of its data.\<close>

definition target :: "Phase \<Rightarrow> Server option" where
  "target p = (case Data p of None \<Rightarrow> None | Some d \<Rightarrow> Server d)"

text \<open>The opaque payload of a phase; empty for a phase without data.\<close>

definition payload :: "Phase \<Rightarrow> string" where
  "payload p = (case Data p of None \<Rightarrow> [] | Some d \<Rightarrow> DataString d)"

text \<open>
  \<open>earlier seen ps\<close>: walking the list \<open>ps\<close>, every phase requires only identifiers
  seen before it (\<open>seen\<close> at the start).
\<close>

fun earlier :: "string list \<Rightarrow> Phase list \<Rightarrow> bool" where
  "earlier seen [] = True"
| "earlier seen (p # ps) =
     (list_all (\<lambda>r. r \<in> set seen) (Requires p) \<and> earlier (seen @ [ID p]) ps)"

text \<open>The dependency edges of a plan: from the identifier of a phase to what it requires.\<close>

definition edges :: "Phase \<Rightarrow> (string \<times> string) list" where
  "edges plan = concat (map (\<lambda>p. map (\<lambda>r. (ID p, r)) (Requires p)) (flatten plan))"

text \<open>
  What the dependency claims read of a phase: its path, its executor, its target node,
  its requirements.
\<close>

definition summary ::
  "Phase \<Rightarrow> string \<times> executor option \<times> Server option \<times> string list" where
  "summary p = (ID p, Executor p, target p, Requires p)"

text \<open>
  The leader election phases of a plan, in pre-order, each with its identifier and the
  servers it enables and disables.
\<close>

definition isElection :: "Phase \<Rightarrow> bool" where
  "isElection p = (Executor p = Some electionStatus)"

definition electionSummary :: "Phase \<Rightarrow> string \<times> Server list \<times> Server list" where
  "electionSummary p =
     (ID p,
      case Data p of
        None \<Rightarrow> ([], [])
      | Some d \<Rightarrow>
          (case ElectionChange d of
             None \<Rightarrow> ([], [])
           | Some c \<Rightarrow> (EnableServers c, DisableServers c)))"

definition elections :: "Phase \<Rightarrow> (string \<times> Server list \<times> Server list) list" where
  "elections plan = map electionSummary (filter isElection (flatten plan))"

text \<open>
  The stages of the etcd plan read the root only for its path; \<open>etcdRoot\<close> is a root
  of that path. \<open>stageRank\<close> numbers the stages of the etcd plan by the path of a phase.
\<close>

definition etcdRoot :: Phase where
  "etcdRoot = Phase ''/etcd'' None (Text []) [] [] None"

definition stageRank :: "string \<Rightarrow> nat" where
  "stageRank i =
     (let pre = take 11 i
      in if pre = ''/etcd/backu'' then 1
         else if pre = ''/etcd/shutd'' then 2
         else if pre = ''/etcd/upgra'' then 3
         else if pre = ''/etcd/resto'' then 4
         else if pre = ''/etcd/resta'' then 5
         else 0)"

section \<open>Example inputs\<close>

definition node1 :: Server where
  "node1 = \<lparr>AdvertiseIP = ''10.0.0.1'', Hostname = ''node-1''\<rparr>"

definition node2 :: Server where
  "node2 = \<lparr>AdvertiseIP = ''10.0.0.2'', Hostname = ''node-2''\<rparr>"

definition master1 :: UpdateServer where
  "master1 = \<lparr>UServer = node1, SELinux = False\<rparr>"

definition master2 :: UpdateServer where
  "master2 = \<lparr>UServer = node2, SELinux = False\<rparr>"

text \<open>A cluster with no links, no trusted clusters and no roles to migrate.\<close>

definition plainConfig :: "(unit, unit, unit) planConfig" where
  "plainConfig = \<lparr>links = [], trustedClusters = [], roles = []\<rparr>"

definition noRolesToMigrate :: "unit list \<Rightarrow> bool" where
  "noRolesToMigrate rs = False"

text \<open>A phase that carries only a payload.\<close>

definition payloadPhase :: "string \<Rightarrow> Phase" where
  "payloadPhase s = Phase [] None (Text []) [] [] (Some (noData\<lparr>DataString := s\<rparr>))"

definition upgradeRoot :: Phase where
  "upgradeRoot = RootPhase (Phase ''openebs-upgrade'' None (Text []) [] [] None)"

text \<open>Two pools, one per line, as the discovery output format of the spec has them.\<close>

definition twoPools :: string where
  "twoPools = ''pool-a 1.7.0'' @ [CHR 0x0A] @ ''pool-b 1.7.0''"

text \<open>
  A cluster where every collaborator of the upgrade job succeeds and the job reports
  one failed pod.
\<close>

definition failedJobEnv :: jobEnv where
  "failedJobEnv =
     \<lparr>Execute = Inr ''manifest'',
      WriteFile = (\<lambda>file content. None),
      Apply = (\<lambda>file. (''job created'', None)),
      NewRunner = None,
      Wait = (\<lambda>ref. None),
      StreamLogs = (\<lambda>ref. (''upgrade log'', None)),
      GetJobFailed = (\<lambda>namespace name. Inr 1)\<rparr>"

text \<open>
  Packages named by strings, versions as numbers: the installed runtime package has a
  manifest without etcd label, the update's runtime package has etcd 3.4.9.
\<close>

definition unlabelledEnv :: "(string, nat) etcdEnv" where
  "unlabelledEnv =
     \<lparr>installedDefaultRuntimePackage = Inr ''planet:5.5.0'',
      installedLegacyPlanetMaster = Inl (NotFound ''no legacy runtime''),
      updateDefaultRuntimePackage = Inr ''planet:7.0.0'',
      GetPackageManifest = (\<lambda>l.
        if l = ''planet:7.0.0''
        then Inr [\<lparr>Label_Name = ''version-etcd'', Label_Value = ''v3.4.9''\<rparr>]
        else Inr [\<lparr>Label_Name = ''purpose'', Label_Value = ''runtime''\<rparr>]),
      NewVersion = (\<lambda>s. if s = ''3.4.9'' then Some 349 else None),
      Compare = (\<lambda>a b. int a - int b),
      String = (\<lambda>v. if v = 349 then ''3.4.9'' else ''0.0.0'')\<rparr>"

text \<open>The same cluster, where the update has no runtime package.\<close>

definition unlabelledNoUpdateEnv :: "(string, nat) etcdEnv" where
  "unlabelledNoUpdateEnv =
     unlabelledEnv\<lparr>updateDefaultRuntimePackage :=
       Inl (Failure ''no runtime package in the update'')\<rparr>"

section \<open>Facts about the phase tree operations\<close>

lemma Require_sel [simp]:
  "ID (Require p r) = ID p" "Executor (Require p r) = Executor p"
  "Data (Require p r) = Data p" "Phases (Require p r) = Phases p"
  "Requires (Require p r) = Requires p @ [r]" "Description (Require p r) = Description p"
  by (simp_all add: Require_def)

lemma withPhases_sel [simp]:
  "ID (withPhases p ps) = ID p" "Executor (withPhases p ps) = Executor p"
  "Data (withPhases p ps) = Data p" "Phases (withPhases p ps) = ps"
  "Requires (withPhases p ps) = Requires p" "Description (withPhases p ps) = Description p"
  by (simp_all add: withPhases_def)

lemma addSequential1_sel [simp]:
  "ID (addSequential1 p s) = ID p" "Requires (addSequential1 p s) = Requires p"
  "Executor (addSequential1 p s) = Executor p" "Data (addSequential1 p s) = Data p"
  by (simp_all add: addSequential1_def)

lemma AddSequential_Nil [simp]: "AddSequential p [] = p"
  by (simp add: AddSequential_def)

lemma AddSequential_Cons: "AddSequential p (s # ss) = AddSequential (addSequential1 p s) ss"
  by (simp add: AddSequential_def)

lemma AddSequential_sel [simp]:
  "ID (AddSequential p ss) = ID p" "Requires (AddSequential p ss) = Requires p"
  "Executor (AddSequential p ss) = Executor p" "Data (AddSequential p ss) = Data p"
  by (induction ss arbitrary: p; simp add: AddSequential_Cons)+

text \<open>A reading of the sub-phases that ignores their requirements survives the attachment.\<close>

lemma map_Phases_addSequential1:
  assumes "\<And>q x. f (Require q x) = f q"
  shows "map f (Phases (addSequential1 p s)) = map f (Phases p) @ [f s]"
  using assms by (simp add: addSequential1_def)

lemma map_Phases_AddSequential:
  assumes "\<And>q x. f (Require q x) = f q"
  shows "map f (Phases (AddSequential p ss)) = map f (Phases p) @ map f ss"
  using assms
  by (induction ss arbitrary: p) (simp_all add: AddSequential_Cons map_Phases_addSequential1)

lemma payload_Require [simp]: "payload (Require q x) = payload q"
  by (simp add: payload_def)

lemma withPhases_withPhases [simp]: "withPhases (withPhases p ps) qs = withPhases p qs"
  by (simp add: withPhases_def)

lemma ChildLiteral_withPhases [simp]: "ChildLiteral (withPhases p ps) x = ChildLiteral p x"
  by (simp add: ChildLiteral_def)

lemma foldl_AddParallel:
  assumes "\<And>s p ps. mk s (withPhases p ps) = mk s p"
  shows "foldl (\<lambda>p s. AddParallel p [mk s p]) p0 xs =
           withPhases p0 (Phases p0 @ map (\<lambda>s. mk s p0) xs)"
proof (induction xs arbitrary: p0)
  case Nil
  show ?case by (cases p0) (simp add: withPhases_def)
next
  case (Cons x xs)
  show ?case unfolding foldl_Cons Cons.IH by (simp add: assms AddParallel_def)
qed

lemma foldl_AddWithDependency:
  assumes "\<And>s p ps. mk s (withPhases p ps) = mk s p"
  shows "foldl (\<lambda>p s. AddWithDependency p (dep s) [mk s p]) p0 xs =
           withPhases p0 (Phases p0 @ map (\<lambda>s. Require (mk s p0) (dep s)) xs)"
proof (induction xs arbitrary: p0)
  case Nil
  show ?case by (cases p0) (simp add: withPhases_def)
next
  case (Cons x xs)
  show ?case unfolding foldl_Cons Cons.IH by (simp add: assms AddWithDependency_def)
qed

lemma Add_sel [simp]:
  "ID (Add p ss) = ID p" "Phases (Add p ss) = Phases p @ ss"
  "ID (AddParallel p ss) = ID p" "Phases (AddParallel p ss) = Phases p @ ss"
  by (simp_all add: Add_def AddParallel_def)

lemma RootPhase_sel [simp]:
  "ID (RootPhase p) = ''/'' @ ID p" "Phases (RootPhase p) = Phases p"
  "Requires (RootPhase p) = Requires p"
  "ID (withDescription p d) = ID p" "Phases (withDescription p d) = Phases p"
  "Requires (withDescription p d) = Requires p"
  by (simp_all add: RootPhase_def withID_def withDescription_def)

lemma Add_Executor_Data [simp]:
  "Executor (Add p ss) = Executor p" "Data (Add p ss) = Data p"
  "Executor (AddParallel p ss) = Executor p" "Data (AddParallel p ss) = Data p"
  "Executor (RootPhase p) = Executor p" "Data (RootPhase p) = Data p"
  "Executor (withDescription p d) = Executor p" "Data (withDescription p d) = Data p"
  by (simp_all add: Add_def AddParallel_def RootPhase_def withID_def withDescription_def)

lemma Add_Requires [simp]:
  "Requires (Add p ss) = Requires p" "Requires (AddParallel p ss) = Requires p"
  by (simp_all add: Add_def AddParallel_def)

lemma flatten_sel: "flatten p = p # concat (map flatten (Phases p))"
  by (cases p) simp

lemma self_in_flatten: "p \<in> set (flatten p)"
  by (subst flatten_sel) simp

lemma child_in_flatten: "c \<in> set (Phases p) \<Longrightarrow> c \<in> set (flatten p)"
  by (subst flatten_sel) (auto intro: self_in_flatten)

lemma flatten_leaves:
  "(\<And>c. c \<in> set cs \<Longrightarrow> Phases c = []) \<Longrightarrow> concat (map flatten cs) = cs"
proof (induction cs)
  case Nil
  show ?case by simp
next
  case (Cons c cs)
  have "flatten c = [c]" using Cons.prems [of c] by (subst flatten_sel) simp
  with Cons show ?case by simp
qed

lemma DependencyForServer_member:
  "DependencyForServer ph s \<in> set (ID ph # map ID (Phases ph))"
  by (auto simp: DependencyForServer_def find_Some_iff split: option.splits)

lemma DependencyForServer_in_flatten: "DependencyForServer ph s \<in> ID ` set (flatten ph)"
  using DependencyForServer_member [of ph s] self_in_flatten [of ph] child_in_flatten [of _ ph]
  by auto

lemma earlier_of_rank:
  assumes "sorted (map (\<lambda>p. rank (ID p)) ps)"
    and "\<And>p r. p \<in> set ps \<Longrightarrow> r \<in> set (Requires p) \<Longrightarrow>
           (r \<in> set seen \<or> r \<in> ID ` set ps) \<and> rank r < (rank (ID p) :: nat)"
  shows "earlier seen ps"
  using assms
proof (induction ps arbitrary: seen)
  case Nil
  show ?case by simp
next
  case (Cons p ps)
  have head: "r \<in> set seen" if "r \<in> set (Requires p)" for r
  proof -
    have a: "(r \<in> set seen \<or> r \<in> ID ` set (p # ps)) \<and> rank r < rank (ID p)"
      using Cons.prems(2) [of p r] that by simp
    have "rank (ID p) \<le> rank (ID q)" if "q \<in> set (p # ps)" for q
      using Cons.prems(1) that by auto
    then have "r \<notin> ID ` set (p # ps)" using a by fastforce
    with a show ?thesis by blast
  qed
  have tail: "earlier (seen @ [ID p]) ps"
  proof (rule Cons.IH)
    show "sorted (map (\<lambda>p. rank (ID p)) ps)" using Cons.prems(1) by simp
  next
    fix q r assume "q \<in> set ps" "r \<in> set (Requires q)"
    then show "(r \<in> set (seen @ [ID p]) \<or> r \<in> ID ` set ps) \<and> rank r < rank (ID q)"
      using Cons.prems(2) [of q r] by auto
  qed
  show ?case using head tail by (simp add: list_all_iff)
qed


lemma sorted_const: "(\<And>x. x \<in> set xs \<Longrightarrow> x = (c::nat)) \<Longrightarrow> sorted xs"
  by (induction xs) auto

section \<open>Properties of the common node sequence\<close>

text \<open>
  C8. For every node and every combination of flags, the executors of the common node
  sequence are, in this order: drain, system upgrade, the election phase exactly when a
  non-empty election change is supplied, health, taint exactly when taints are
  supported, uncordon, the endpoint wait exactly when it is requested, and untaint
  exactly when taints are supported. No other phase is in the list. The identifiers of
  the phases follow the same pattern.
\<close>

theorem commonNode_order:
  "map Executor (commonNode server leadMaster supportsTaints waitsForEndpoints ec) =
     [Some drainNode, Some updateSystem]
     @ (if enable ec = [] \<and> disable ec = [] then [] else [Some electionStatus])
     @ [Some nodeHealth]
     @ (if supportsTaints then [Some taintNode] else [])
     @ [Some uncordonNode]
     @ (if waitsForEndpoints then [Some endpoints] else [])
     @ (if supportsTaints then [Some untaintNode] else [])
   \<and> map ID (commonNode server leadMaster supportsTaints waitsForEndpoints ec) =
     [''drain'', ''system-upgrade'']
     @ (if enable ec = [] \<and> disable ec = [] then [] else [electionChanges_ID ec])
     @ [''health'']
     @ (if supportsTaints then [''taint''] else [])
     @ [''uncordon'']
     @ (if waitsForEndpoints then [''endpoints''] else [])
     @ (if supportsTaints then [''untaint''] else [])"
  by (simp add: commonNode_def Let_def shouldAddPhase_def setLeaderElection_def)

theorem commonNode_order_witness:
  "map Executor (commonNode master2 master1 True False electionChanges_zero) =
     [Some drainNode, Some updateSystem, Some nodeHealth, Some taintNode,
      Some uncordonNode, Some untaintNode]
   \<and> map ID (commonNode master2 master1 True False electionChanges_zero) =
     [''drain'', ''system-upgrade'', ''health'', ''taint'', ''uncordon'', ''untaint'']"
  using commonNode_order [of master2 master1 True False electionChanges_zero]
  by (simp add: electionChanges_zero_def)

section \<open>Properties of the migration phase\<close>

text \<open>
  C3, as the claim states it, fails: with no links and no roles to migrate the builder
  still returns a phase, the one that holds the label refresh.
\<close>

theorem migration_nothing_to_migrate:
  "migration noRolesToMigrate plainConfig node1 =
     Some (Phase ''/migration'' None (Text ''Perform system database migration'')
       [Phase ''/migration/labels'' (Some updateLabels) (Text ''Update node labels'')
          [] [] None]
       [] None)"
  by (simp add: migration_def Let_def noRolesToMigrate_def plainConfig_def RootPhase_def
      withID_def ChildLiteral_def AddParallel_def withPhases_def)

text \<open>
  C3, amended. The migration builder always returns a phase. Its sub-phases are, in this
  order: the links conversion exactly when there are links and no trusted clusters, the
  label refresh in every case, the roles migration exactly when the roles need it. They
  are attached in parallel: none requires another.
\<close>

theorem migration_always_labels:
  "map_option (\<lambda>root. map (\<lambda>p. (ID p, Executor p, Requires p)) (Phases root))
     (migration NeedMigrateRoles r leadMaster) =
   Some ((if links r \<noteq> [] \<and> trustedClusters r = []
          then [(''/migration/links'', Some migrateLinks, [])] else [])
         @ [(''/migration/labels'', Some updateLabels, [])]
         @ (if NeedMigrateRoles (roles r)
            then [(''/migration/roles'', Some migrateRoles, [])] else []))"
  by (simp add: migration_def Let_def RootPhase_def withID_def ChildLiteral_def
      AddParallel_def withPhases_def)

theorem migration_always_labels_witness:
  "map_option (\<lambda>root. map (\<lambda>p. (ID p, Executor p, Requires p)) (Phases root))
     (migration noRolesToMigrate plainConfig node1) =
   Some [(''/migration/labels'', Some updateLabels, [])]"
  using migration_always_labels [of noRolesToMigrate plainConfig node1]
  by (simp add: noRolesToMigrate_def plainConfig_def)

section \<open>Properties of the OpenEBS upgrade phases\<close>

lemma foldl_pool_phases:
  "map payload (Phases (foldl (\<lambda>root poolAndVer.
       AddSequential root [openEBSPoolPhase poolAndVer]) root xs))
     = map payload (Phases root) @ xs"
  by (induction xs arbitrary: root)
     (simp_all add: map_Phases_AddSequential openEBSPoolPhase_def payload_def noData_def)

lemma foldl_volume_phases:
  "map payload (Phases (foldl (\<lambda>root volAndVer.
       AddSequential root [openEBSVolumePhase root volAndVer]) root xs))
     = map payload (Phases root) @ xs"
  by (induction xs arbitrary: root)
     (simp_all add: map_Phases_AddSequential openEBSVolumePhase_def payload_def noData_def)

text \<open>
  C7, as the claim states it, fails: with one pool found and the empty string for the
  volumes, \<open>openEBSUpgrade\<close> returns an error, but the root it was given already
  holds the pool phase. The plan is partial, not ``not built at all''.
\<close>

theorem openEBSUpgrade_partial_root:
  "fst (openEBSUpgrade (''pool-a 1.7.0'', None) ([], None) master1 upgradeRoot) =
     Some (Failure ''failed to get pool info'')
   \<and> Phases upgradeRoot = []
   \<and> map payload (Phases (snd (openEBSUpgrade (''pool-a 1.7.0'', None) ([], None)
         master1 upgradeRoot))) = [''pool-a 1.7.0'']"
  by (simp add: upgradeRoot_def RootPhase_def withID_def Let_def AddSequential_def
      addSequential1_def openEBSPoolPhase_def payload_def noData_def)

text \<open>
  C7, amended. When the discovery query gives the empty string for the pools or for the
  volumes, \<open>openEBSUpgrade\<close> returns an error. When the pool output is empty, the root
  is returned as it was given. When the pool query succeeds with a non-empty output and
  the volume query fails or gives the empty string, the error comes with a root that
  already holds one phase per line of the pool output and no volume phase. When no
  error is returned, neither output was empty and the plan is complete: the root has
  gained one phase per line of the pool output and one per line of the volume output,
  in this order.
\<close>

theorem openEBSUpgrade_empty_discovery:
  "(poolsOut = [] \<or> volumesOut = [] \<longrightarrow>
      fst (openEBSUpgrade (poolsOut, poolsErr) (volumesOut, volumesErr) leadMaster root)
        \<noteq> None)
   \<and> (poolsOut = [] \<longrightarrow>
        snd (openEBSUpgrade (poolsOut, poolsErr) (volumesOut, volumesErr) leadMaster root)
          = root)
   \<and> (poolsErr = None \<and> poolsOut \<noteq> [] \<and> (volumesErr \<noteq> None \<or> volumesOut = []) \<longrightarrow>
        fst (openEBSUpgrade (poolsOut, poolsErr) (volumesOut, volumesErr) leadMaster root)
          \<noteq> None \<and>
        map payload (Phases (snd (openEBSUpgrade (poolsOut, poolsErr)
            (volumesOut, volumesErr) leadMaster root)))
          = map payload (Phases root) @ Split poolsOut (CHR 0x0A))
   \<and> (fst (openEBSUpgrade (poolsOut, poolsErr) (volumesOut, volumesErr) leadMaster root)
         = None \<longrightarrow>
        poolsOut \<noteq> [] \<and> volumesOut \<noteq> [] \<and>
        map payload (Phases (snd (openEBSUpgrade (poolsOut, poolsErr)
            (volumesOut, volumesErr) leadMaster root)))
          = map payload (Phases root) @ Split poolsOut (CHR 0x0A)
              @ Split volumesOut (CHR 0x0A))"
  by (auto simp: Let_def foldl_pool_phases foldl_volume_phases split: option.splits)

theorem openEBSUpgrade_empty_discovery_witness:
  "fst (openEBSUpgrade (''pool-a 1.7.0'', None) ([], None) master1 upgradeRoot) \<noteq> None
   \<and> map payload (Phases (snd (openEBSUpgrade (''pool-a 1.7.0'', None) ([], None)
         master1 upgradeRoot))) = [''pool-a 1.7.0'']
   \<and> fst (openEBSUpgrade ([], None) (''pvc-1 1.7.0'', None) master1 upgradeRoot) \<noteq> None
   \<and> snd (openEBSUpgrade ([], None) (''pvc-1 1.7.0'', None) master1 upgradeRoot)
       = upgradeRoot"
  using openEBSUpgrade_empty_discovery [of "''pool-a 1.7.0''" "[]" None None master1 upgradeRoot]
    openEBSUpgrade_empty_discovery [of "[]" "''pvc-1 1.7.0''" None None master1 upgradeRoot]
  by (simp add: upgradeRoot_def RootPhase_def withID_def)

text \<open>
  C4. The claim asks for pairwise distinct paths among the children of a parent. With
  two pools in the discovery output the root gets two children of the same path: every
  pool phase is given the constant identifier \<open>openebs-upgrade-pool\<close>.
\<close>

theorem openEBSUpgrade_duplicate_pool_paths:
  "map ID (Phases (snd (openEBSUpgrade (twoPools, None) (''pvc-1 1.7.0'', None)
       master1 upgradeRoot))) =
     [''openebs-upgrade-pool'', ''openebs-upgrade-pool'',
      ''/openebs-upgrade/openebs-upgrade-volume'']"
  by (simp add: twoPools_def upgradeRoot_def Let_def openEBSPoolPhase_def
      openEBSVolumePhase_def AddSequential_def addSequential1_def ChildLiteral_def
      RootPhase_def withID_def)


section \<open>Properties of the upgrade executors\<close>

lemma Split_nonempty: "Split s c \<noteq> []"
  by (induction s) (auto split: list.splits)

lemma NewPhaseUpgradePool_no_error: "NewPhaseUpgradePool phase \<noteq> Return x (Some e)"
  by (simp add: NewPhaseUpgradePool_def Let_def split: option.splits)

lemma NewPhaseUpgradeVolume_no_error: "NewPhaseUpgradeVolume phase \<noteq> Return x (Some e)"
  by (simp add: NewPhaseUpgradeVolume_def Let_def split: option.splits)

text \<open>
  C6, as the claim states it, fails: a payload of four tokens is no hard failure. The
  constructor returns an executor and no error, and the fourth token is dropped. A
  payload of two tokens, the name and version pair that \<open>openEBSUpgrade\<close> attaches,
  is no error either: the read of the third field panics.
\<close>

theorem NewPhaseUpgradePool_four_tokens:
  "NewPhaseUpgradePool (payloadPhase ''pool-a 1.7.0 2.2.0 3.0.0'') =
     Return \<lparr>Pool = ''pool-a'', PoolFromVersion = ''1.7.0'', PoolToVersion = ''2.2.0''\<rparr>
       None
   \<and> NewPhaseUpgradePool (payloadPhase ''pool-a 1.7.0'') = Panic ''index out of range''"
  by (simp add: NewPhaseUpgradePool_def payloadPhase_def noData_def Let_def)

text \<open>
  C6, amended. The constructors of the pool and of the volume executor split the payload
  at single spaces. When this gives at least three fields, they return an executor and
  no error; component name, from-version and to-version are the first three fields, and
  further fields are ignored.
\<close>

theorem NewPhaseUpgrade_first_three_fields:
  assumes "3 \<le> length (Split s (CHR '' ''))"
  shows "NewPhaseUpgradePool (payloadPhase s) =
           Return \<lparr>Pool = Split s (CHR '' '') ! 0,
             PoolFromVersion = Split s (CHR '' '') ! 1,
             PoolToVersion = Split s (CHR '' '') ! 2\<rparr> None
         \<and> NewPhaseUpgradeVolume (payloadPhase s) =
           Return \<lparr>Volume = Split s (CHR '' '') ! 0,
             VolumeFromVersion = Split s (CHR '' '') ! 1,
             VolumeToVersion = Split s (CHR '' '') ! 2\<rparr> None"
  using assms
  by (simp add: NewPhaseUpgradePool_def NewPhaseUpgradeVolume_def payloadPhase_def
      noData_def Let_def)

theorem NewPhaseUpgrade_first_three_fields_witness:
  "NewPhaseUpgradePool (payloadPhase ''pool-a 1.7.0 2.2.0'') =
     Return \<lparr>Pool = ''pool-a'', PoolFromVersion = ''1.7.0'', PoolToVersion = ''2.2.0''\<rparr>
       None
   \<and> NewPhaseUpgradeVolume (payloadPhase ''pool-a 1.7.0 2.2.0'') =
     Return \<lparr>Volume = ''pool-a'', VolumeFromVersion = ''1.7.0'',
       VolumeToVersion = ''2.2.0''\<rparr> None"
  using NewPhaseUpgrade_first_three_fields [of "''pool-a 1.7.0 2.2.0''"]
  by simp

text \<open>
  The copy of \<open>execUpgradeJob\<close> beside the plan builder does what the claim on the
  failed pods asks for. A job with a nonzero count of failed pods never gives success.
  When the manifest is rendered, written and applied, the runner is created and the log
  stream returns without error, the job is fetched again and a nonzero count of failed
  pods is the error ``upgrade job has failed pods'', returned with the logs. Success is
  returned only when the fetched job has no failed pod.
\<close>

theorem execUpgradeJob_failed_pods:
  "(GetJobFailed env k8sNamespace jobName = Inr failed \<and> failed \<noteq> 0 \<longrightarrow>
      snd (execUpgradeJob env jobName) \<noteq> None)
   \<and> (Execute env = Inr buf \<and>
       WriteFile env ''openebs_data_plane_component_upgrade.yaml'' buf = None \<and>
       Apply env ''openebs_data_plane_component_upgrade.yaml'' = (out, None) \<and>
       NewRunner env = None \<and>
       StreamLogs env \<lparr>JobRef_Name = jobName, JobRef_Namespace = k8sNamespace\<rparr>
         = (logs, None) \<and>
       GetJobFailed env k8sNamespace jobName = Inr failed \<and> failed \<noteq> 0 \<longrightarrow>
         execUpgradeJob env jobName = (logs, Some (Failure ''upgrade job has failed pods'')))
   \<and> (snd (execUpgradeJob env jobName) = None \<longrightarrow>
         GetJobFailed env k8sNamespace jobName = Inr 0)"
  by (auto simp: execUpgradeJob_def Let_def split: sum.splits option.splits prod.splits)

theorem execUpgradeJob_failed_pods_witness:
  "execUpgradeJob failedJobEnv ''cstor-pool-a'' =
     (''upgrade log'', Some (Failure ''upgrade job has failed pods''))"
  using execUpgradeJob_failed_pods [of failedJobEnv "''cstor-pool-a''" 1 "''manifest''"
      "''job created''" "''upgrade log''"]
  by (simp add: failedJobEnv_def)

text \<open>The second copy never reads the job: its result is the same whatever the job reports.\<close>

lemma execUpgradeJob_wait_ignores_job:
  "execUpgradeJob_wait (env\<lparr>GetJobFailed := g\<rparr>) jobName = execUpgradeJob_wait env jobName"
  by (simp add: execUpgradeJob_wait_def Let_def split: sum.splits option.splits prod.splits)

text \<open>
  C9. The claim asks that a job with a nonzero count of failed pods fails the phase even
  when the wait reported success. The second copy of \<open>execUpgradeJob\<close> does not: with
  every collaborator succeeding and a job that reports one failed pod, it returns the
  logs and no error, where the first copy returns the error.
\<close>

theorem execUpgradeJob_wait_success_with_failed_pods:
  "execUpgradeJob_wait failedJobEnv ''cstor-spc-1170220'' = (''upgrade log'', None)
   \<and> GetJobFailed failedJobEnv ''openebs'' ''cstor-spc-1170220'' = Inr 1
   \<and> execUpgradeJob failedJobEnv ''cstor-spc-1170220'' =
       (''upgrade log'', Some (Failure ''upgrade job has failed pods''))"
  by (simp add: execUpgradeJob_wait_def execUpgradeJob_def failedJobEnv_def k8sNamespace_def)

section \<open>Properties of the etcd version check\<close>

lemma findVersion_no_label:
  "searchLabel \<notin> set (map Label_Name labels) \<Longrightarrow>
     \<exists>msg. findVersion parse searchLabel labels = Inl (NotFound msg)"
  by (induction labels) auto

lemma getEtcdVersion_no_label:
  assumes "GetPackageManifest p pkg = Inr labels"
    and "searchLabel \<notin> set (map Label_Name labels)"
  shows "\<exists>msg. getEtcdVersion p searchLabel pkg = Inl (NotFound msg)"
  using assms findVersion_no_label [of searchLabel labels "NewVersion p"]
  by (simp add: getEtcdVersion_def)

text \<open>
  C10, as the claim states it, fails: the installed runtime package has no etcd label,
  yet \<open>shouldUpdateEtcd\<close> returns false, with the error of the update's lookup.
\<close>

theorem shouldUpdateEtcd_update_lookup_fails:
  "getEtcdVersion unlabelledNoUpdateEnv ''version-etcd'' ''planet:5.5.0'' =
     Inl (NotFound ''package manifest does not have label'')
   \<and> shouldUpdateEtcd unlabelledNoUpdateEnv =
     (False, [], [], Some (Failure ''no runtime package in the update''))"
  by (simp add: shouldUpdateEtcd_def shouldUpdateEtcd_installed_def
      shouldUpdateEtcd_update_def getEtcdVersion_def IsNotFound_def
      unlabelledNoUpdateEnv_def unlabelledEnv_def)

text \<open>
  C10, amended. Let the installed runtime package be found (directly, or as the legacy
  package after a not-found error). If its manifest has no label \<open>version-etcd\<close>,
  \<open>shouldUpdateEtcd\<close> returns true with an empty installed version whenever the
  runtime package of the update and its etcd version are found, and returns false with
  the error of that lookup otherwise. If the installed package has an etcd version, it
  returns, under the same condition, true exactly when that version compares below the
  update's.
\<close>

theorem shouldUpdateEtcd_without_label:
  assumes runtime:
      "installedDefaultRuntimePackage p = Inr pkg \<or>
       (installedDefaultRuntimePackage p = Inl (NotFound msg) \<and>
        installedLegacyPlanetMaster p = Inr pkg)"
  shows "(GetPackageManifest p pkg = Inr labels \<and>
          ''version-etcd'' \<notin> set (map Label_Name labels) \<longrightarrow>
            shouldUpdateEtcd p =
              (case updateDefaultRuntimePackage p of
                 Inl err \<Rightarrow> (False, [], [], Some err)
               | Inr upkg \<Rightarrow>
                   (case getEtcdVersion p ''version-etcd'' upkg of
                      Inl err \<Rightarrow> (False, [], [], Some err)
                    | Inr updateVersion \<Rightarrow> (True, [], String p updateVersion, None))))
       \<and> (getEtcdVersion p ''version-etcd'' pkg = Inr installedVersion \<longrightarrow>
            shouldUpdateEtcd p =
              (case updateDefaultRuntimePackage p of
                 Inl err \<Rightarrow> (False, [], [], Some err)
               | Inr upkg \<Rightarrow>
                   (case getEtcdVersion p ''version-etcd'' upkg of
                      Inl err \<Rightarrow> (False, [], [], Some err)
                    | Inr updateVersion \<Rightarrow>
                        (Compare p installedVersion updateVersion < 0,
                         String p installedVersion, String p updateVersion, None))))"
proof -
  have top: "shouldUpdateEtcd p = shouldUpdateEtcd_installed p pkg"
    using runtime by (auto simp: shouldUpdateEtcd_def IsNotFound_def)
  show ?thesis
  proof (intro conjI impI)
    assume a: "GetPackageManifest p pkg = Inr labels \<and>
      ''version-etcd'' \<notin> set (map Label_Name labels)"
    obtain m where "getEtcdVersion p ''version-etcd'' pkg = Inl (NotFound m)"
      using getEtcdVersion_no_label [OF conjunct1 [OF a] conjunct2 [OF a]] ..
    then show "shouldUpdateEtcd p =
        (case updateDefaultRuntimePackage p of
           Inl err \<Rightarrow> (False, [], [], Some err)
         | Inr upkg \<Rightarrow>
             (case getEtcdVersion p ''version-etcd'' upkg of
                Inl err \<Rightarrow> (False, [], [], Some err)
              | Inr updateVersion \<Rightarrow> (True, [], String p updateVersion, None)))"
      by (simp add: top shouldUpdateEtcd_installed_def IsNotFound_def
          shouldUpdateEtcd_update_def split: sum.splits)
  next
    assume "getEtcdVersion p ''version-etcd'' pkg = Inr installedVersion"
    then show "shouldUpdateEtcd p =
        (case updateDefaultRuntimePackage p of
           Inl err \<Rightarrow> (False, [], [], Some err)
         | Inr upkg \<Rightarrow>
             (case getEtcdVersion p ''version-etcd'' upkg of
                Inl err \<Rightarrow> (False, [], [], Some err)
              | Inr updateVersion \<Rightarrow>
                  (Compare p installedVersion updateVersion < 0,
                   String p installedVersion, String p updateVersion, None)))"
      by (simp add: top shouldUpdateEtcd_installed_def shouldUpdateEtcd_update_def
          split: sum.splits)
  qed
qed

theorem shouldUpdateEtcd_without_label_witness:
  "shouldUpdateEtcd unlabelledEnv = (True, [], ''3.4.9'', None)"
proof -
  have "getEtcdVersion unlabelledEnv ''version-etcd'' ''planet:7.0.0'' = Inr 349"
    by (simp add: getEtcdVersion_def unlabelledEnv_def TrimPrefix_def)
  then show ?thesis
    using shouldUpdateEtcd_without_label [of unlabelledEnv "''planet:5.5.0''" "[]"
      "[\<lparr>Label_Name = ''purpose'', Label_Value = ''runtime''\<rparr>]" 0]
    by (simp add: unlabelledEnv_def)
qed

section \<open>Properties of the etcd upgrade plan\<close>

lemma etcd_node_withPhases [simp]:
  "etcdBackupNode s (withPhases p ps) = etcdBackupNode s p"
  "etcdShutdownNode s (withPhases p ps) b = etcdShutdownNode s p b"
  "etcdUpgrade s (withPhases p ps) = etcdUpgrade s p"
  "etcdRestart s l (withPhases p ps) = etcdRestart s l p"
  by (simp_all add: etcdBackupNode_def etcdShutdownNode_def etcdUpgrade_def etcdRestart_def)

lemma etcdPlan_backup_eq:
  "etcdPlan_backup root l os =
     Phase (ID root @ ''/backup'') None (Text ''Backup etcd data'')
       (map (\<lambda>s. Phase (ID root @ ''/backup/'' @ Hostname s) (Some updateEtcdBackup)
                  (Sprintf ''Backup etcd on node %q'' [Hostname s]) [] []
                  (Some (noData\<lparr>Server := Some s\<rparr>))) (l # os))
       [] None"
  unfolding etcdPlan_backup_def Let_def
  by (subst foldl_AddParallel)
     (simp_all add: AddParallel_def withPhases_def etcdBackupNode_def ChildLiteral_def)

lemma etcdPlan_shutdown_eq:
  "etcdPlan_shutdown root bk l os =
     Phase (ID root @ ''/shutdown'') None (Text ''Shutdown etcd cluster'')
       (Phase (ID root @ ''/shutdown/'' @ Hostname l) (Some updateEtcdShutdown)
          (Sprintf ''Shutdown etcd on node %q'' [Hostname l]) []
          [DependencyForServer bk l]
          (Some (noData\<lparr>Server := Some l, DataString := ''true''\<rparr>))
        # map (\<lambda>s. Phase (ID root @ ''/shutdown/'' @ Hostname s) (Some updateEtcdShutdown)
                  (Sprintf ''Shutdown etcd on node %q'' [Hostname s]) []
                  [DependencyForServer bk s]
                  (Some (noData\<lparr>Server := Some s, DataString := ''false''\<rparr>))) os)
       [] None"
  unfolding etcdPlan_shutdown_def Let_def
  by (subst foldl_AddWithDependency)
     (simp_all add: AddWithDependency_def withPhases_def etcdShutdownNode_def ChildLiteral_def
        Require_def FormatBool_def)

lemma etcdPlan_upgrade_eq:
  "etcdPlan_upgrade root sd l os =
     Phase (ID root @ ''/upgrade'') None (Text ''Upgrade etcd servers'')
       (map (\<lambda>s. Phase (ID root @ ''/upgrade/'' @ Hostname s) (Some updateEtcdMaster)
                  (Sprintf ''Upgrade etcd on node %q'' [Hostname s]) []
                  [DependencyForServer sd s]
                  (Some (noData\<lparr>Server := Some s\<rparr>))) (l # os))
       [] None"
  unfolding etcdPlan_upgrade_def Let_def
  by (subst foldl_AddWithDependency)
     (simp_all add: AddWithDependency_def withPhases_def etcdUpgrade_def ChildLiteral_def
        Require_def)

lemma etcdPlan_restart_eq:
  "etcdPlan_restart G root rs up l os =
     Phase (ID root @ ''/restart'') None (Text ''Restart etcd servers'')
       (Phase (ID root @ ''/restart/'' @ Hostname l) (Some updateEtcdRestart)
          (Sprintf ''Restart etcd on node %q'' [Hostname l]) []
          [DependencyForServer rs l]
          (Some (noData\<lparr>Server := Some l, Master := Some l\<rparr>))
        # map (\<lambda>s. Phase (ID root @ ''/restart/'' @ Hostname s) (Some updateEtcdRestart)
                  (Sprintf ''Restart etcd on node %q'' [Hostname s]) []
                  [DependencyForServer up s]
                  (Some (noData\<lparr>Server := Some s, Master := Some l\<rparr>))) os
        @ [Phase (ID root @ ''/restart/'' @ G) (Some updateEtcdRestartGravity)
             (Sprint [''Restart '', G, '' service'']) [] []
             (Some (noData\<lparr>Server := Some l\<rparr>))])
       [] None"
  unfolding etcdPlan_restart_def Let_def
    foldl_AddWithDependency [where mk = "\<lambda>s p. etcdRestart s l p", OF etcd_node_withPhases(4)]
  by (simp_all add: AddWithDependency_def AddParallel_def withPhases_def etcdRestart_def
        ChildLiteral_def Require_def)

lemma etcdPlan_Phases:
  "Phases (etcdPlan G l os w cur des) =
     [etcdPlan_backup etcdRoot l os,
      etcdPlan_shutdown etcdRoot (etcdPlan_backup etcdRoot l os) l os,
      etcdPlan_upgrade etcdRoot
        (etcdPlan_shutdown etcdRoot (etcdPlan_backup etcdRoot l os) l os) l os,
      Require (etcdPlan_restore etcdRoot l) ''/etcd/upgrade'',
      etcdPlan_restart G etcdRoot (etcdPlan_restore etcdRoot l)
        (etcdPlan_upgrade etcdRoot
           (etcdPlan_shutdown etcdRoot (etcdPlan_backup etcdRoot l os) l os) l os) l os]"
proof -
  define root0 where "root0 =
    (if cur = [] then
       withDescription (RootPhase (Phase etcdPhaseName None
         (Sprintf ''Upgrade etcd %v to %v'' [cur, des]) [] [] None))
         (Sprintf ''Upgrade etcd to %v'' [des])
     else RootPhase (Phase etcdPhaseName None
         (Sprintf ''Upgrade etcd %v to %v'' [cur, des]) [] [] None))"
  have r0: "ID root0 = ''/etcd''" "Phases root0 = []"
    by (simp_all add: root0_def etcdPhaseName_def)
  have bk: "etcdPlan_backup r l os = etcdPlan_backup etcdRoot l os" if "ID r = ''/etcd''" for r
    using that by (simp add: etcdPlan_backup_eq etcdRoot_def)
  have sd: "etcdPlan_shutdown r b l os = etcdPlan_shutdown etcdRoot b l os"
    if "ID r = ''/etcd''" for r b
    using that by (simp add: etcdPlan_shutdown_eq etcdRoot_def)
  have up: "etcdPlan_upgrade r b l os = etcdPlan_upgrade etcdRoot b l os"
    if "ID r = ''/etcd''" for r b
    using that by (simp add: etcdPlan_upgrade_eq etcdRoot_def)
  have rs: "etcdPlan_restore r l = etcdPlan_restore etcdRoot l" if "ID r = ''/etcd''" for r
    using that by (simp add: etcdPlan_restore_def ChildLiteral_def etcdRoot_def)
  have rt: "etcdPlan_restart G r a b l os = etcdPlan_restart G etcdRoot a b l os"
    if "ID r = ''/etcd''" for r a b
    using that by (simp add: etcdPlan_restart_eq etcdRoot_def)
  have upid: "ID (etcdPlan_upgrade etcdRoot b l os) = ''/etcd/upgrade''" for b
    by (simp add: etcdPlan_upgrade_eq etcdRoot_def)
  have "etcdPlan G l os w cur des =
    (let root = root0;
         backupEtcd = etcdPlan_backup root l os;
         root = AddSequential root [backupEtcd];
         shutdownEtcd = etcdPlan_shutdown root backupEtcd l os;
         root = Add root [shutdownEtcd];
         upgradeServers = etcdPlan_upgrade root shutdownEtcd l os;
         root = Add root [upgradeServers];
         restoreData = etcdPlan_restore root l;
         root = AddSequential root [restoreData];
         restartMasters = etcdPlan_restart G root restoreData upgradeServers l os;
         root = Add root [restartMasters]
     in root)"
    unfolding etcdPlan_def root0_def Let_def by simp
  then show ?thesis
    unfolding Let_def
    by (simp add: r0 bk sd up rs rt upid AddSequential_Cons addSequential1_def)
qed


lemma stage_ids [simp]:
  "ID (etcdPlan_backup etcdRoot l os) = ''/etcd/backup''"
  "ID (etcdPlan_shutdown etcdRoot bk l os) = ''/etcd/shutdown''"
  "ID (etcdPlan_upgrade etcdRoot sd l os) = ''/etcd/upgrade''"
  "ID (etcdPlan_restore etcdRoot l) = ''/etcd/restore''"
  "ID (etcdPlan_restart G etcdRoot rs up l os) = ''/etcd/restart''"
  by (simp_all add: etcdPlan_backup_eq etcdPlan_shutdown_eq etcdPlan_upgrade_eq
      etcdPlan_restart_eq etcdPlan_restore_def ChildLiteral_def etcdRoot_def)

lemma backup_flatten:
  assumes "q \<in> set (flatten (etcdPlan_backup etcdRoot l os))"
  shows "stageRank (ID q) = 1 \<and> Requires q = []"
proof -
  have "flatten (etcdPlan_backup etcdRoot l os) =
      etcdPlan_backup etcdRoot l os # Phases (etcdPlan_backup etcdRoot l os)"
    by (subst flatten_sel, subst flatten_leaves) (auto simp: etcdPlan_backup_eq)
  with assms show ?thesis
    by (auto simp: etcdPlan_backup_eq etcdRoot_def stageRank_def)
qed

lemma shutdown_flatten:
  assumes "q \<in> set (flatten (etcdPlan_shutdown etcdRoot bk l os))"
  shows "stageRank (ID q) = 2 \<and> (\<forall>r\<in>set (Requires q). r \<in> ID ` set (flatten bk))"
proof -
  have "flatten (etcdPlan_shutdown etcdRoot bk l os) =
      etcdPlan_shutdown etcdRoot bk l os # Phases (etcdPlan_shutdown etcdRoot bk l os)"
    by (subst flatten_sel, subst flatten_leaves) (auto simp: etcdPlan_shutdown_eq)
  with assms show ?thesis
    by (auto simp: etcdPlan_shutdown_eq etcdRoot_def stageRank_def
        DependencyForServer_in_flatten)
qed

lemma upgrade_flatten:
  assumes "q \<in> set (flatten (etcdPlan_upgrade etcdRoot sd l os))"
  shows "stageRank (ID q) = 3 \<and> (\<forall>r\<in>set (Requires q). r \<in> ID ` set (flatten sd))"
proof -
  have "flatten (etcdPlan_upgrade etcdRoot sd l os) =
      etcdPlan_upgrade etcdRoot sd l os # Phases (etcdPlan_upgrade etcdRoot sd l os)"
    by (subst flatten_sel, subst flatten_leaves) (auto simp: etcdPlan_upgrade_eq)
  with assms show ?thesis
    by (auto simp: etcdPlan_upgrade_eq etcdRoot_def stageRank_def
        DependencyForServer_in_flatten)
qed

lemma restart_flatten:
  assumes "q \<in> set (flatten (etcdPlan_restart G etcdRoot rs up l os))"
  shows "stageRank (ID q) = 5 \<and>
    (\<forall>r\<in>set (Requires q). r \<in> ID ` set (flatten rs) \<or> r \<in> ID ` set (flatten up))"
proof -
  have "flatten (etcdPlan_restart G etcdRoot rs up l os) =
      etcdPlan_restart G etcdRoot rs up l os # Phases (etcdPlan_restart G etcdRoot rs up l os)"
    by (subst flatten_sel, subst flatten_leaves) (auto simp: etcdPlan_restart_eq)
  with assms show ?thesis
    by (auto simp: etcdPlan_restart_eq etcdRoot_def stageRank_def
        DependencyForServer_in_flatten)
qed


lemma etcdPlan_sel: "ID (etcdPlan G l os w cur des) = ''/etcd''"
  "Requires (etcdPlan G l os w cur des) = []"
  by (simp_all add: etcdPlan_def Let_def etcdPhaseName_def)

lemma restore_flatten:
  "flatten (Require (etcdPlan_restore etcdRoot l) x) = [Require (etcdPlan_restore etcdRoot l) x]"
  "flatten (etcdPlan_restore etcdRoot l) = [etcdPlan_restore etcdRoot l]"
  by (subst flatten_sel, simp add: etcdPlan_restore_def)+

lemma etcdPlan_flatten:
  "flatten (etcdPlan G l os w cur des) =
     etcdPlan G l os w cur des
     # flatten (etcdPlan_backup etcdRoot l os)
     @ flatten (etcdPlan_shutdown etcdRoot (etcdPlan_backup etcdRoot l os) l os)
     @ flatten (etcdPlan_upgrade etcdRoot
          (etcdPlan_shutdown etcdRoot (etcdPlan_backup etcdRoot l os) l os) l os)
     @ [Require (etcdPlan_restore etcdRoot l) ''/etcd/upgrade'']
     @ flatten (etcdPlan_restart G etcdRoot (etcdPlan_restore etcdRoot l)
          (etcdPlan_upgrade etcdRoot
             (etcdPlan_shutdown etcdRoot (etcdPlan_backup etcdRoot l os) l os) l os) l os)"
  by (subst flatten_sel) (simp add: etcdPlan_Phases restore_flatten)

lemma etcdPlan_sorted:
  "sorted (map (\<lambda>p. stageRank (ID p)) (flatten (etcdPlan G l os w cur des)))"
proof -
  let ?bk = "etcdPlan_backup etcdRoot l os"
  let ?sd = "etcdPlan_shutdown etcdRoot ?bk l os"
  let ?up = "etcdPlan_upgrade etcdRoot ?sd l os"
  let ?rt = "etcdPlan_restart G etcdRoot (etcdPlan_restore etcdRoot l) ?up l os"
  let ?f = "\<lambda>p. stageRank (ID p)"
  have b: "sorted (map ?f (flatten ?bk))" "sorted (map ?f (flatten ?sd))"
    "sorted (map ?f (flatten ?up))" "sorted (map ?f (flatten ?rt))"
    by (rule sorted_const [where c = 1], use backup_flatten in auto)
       (rule sorted_const [where c = 2], use shutdown_flatten in auto,
        rule sorted_const [where c = 3], use upgrade_flatten in auto,
        rule sorted_const [where c = 5], use restart_flatten in auto)
  have v: "\<And>q. q \<in> set (flatten ?bk) \<Longrightarrow> ?f q = 1" "\<And>q. q \<in> set (flatten ?sd) \<Longrightarrow> ?f q = 2"
    "\<And>q. q \<in> set (flatten ?up) \<Longrightarrow> ?f q = 3" "\<And>q. q \<in> set (flatten ?rt) \<Longrightarrow> ?f q = 5"
    using backup_flatten shutdown_flatten upgrade_flatten restart_flatten by blast+
  have r: "stageRank ''/etcd/restore'' = 4"
    by (simp add: stageRank_def)
  have z: "stageRank ''/etcd'' = 0"
    by (simp add: stageRank_def)
  show ?thesis
    unfolding etcdPlan_flatten
    by (auto simp: sorted_append b v r z etcdPlan_sel)
qed

lemma etcdPlan_requirements:
  assumes "p \<in> set (flatten (etcdPlan G l os w cur des))" "r \<in> set (Requires p)"
  shows "r \<in> ID ` set (flatten (etcdPlan G l os w cur des))
         \<and> stageRank r < stageRank (ID p)"
proof -
  let ?bk = "etcdPlan_backup etcdRoot l os"
  let ?sd = "etcdPlan_shutdown etcdRoot ?bk l os"
  let ?up = "etcdPlan_upgrade etcdRoot ?sd l os"
  let ?rs = "etcdPlan_restore etcdRoot l"
  let ?rt = "etcdPlan_restart G etcdRoot ?rs ?up l os"
  have up_self: "''/etcd/upgrade'' \<in> ID ` set (flatten ?up)"
    using self_in_flatten [of ?up] by (metis image_eqI stage_ids(3))
  consider "p = etcdPlan G l os w cur des" | "p \<in> set (flatten ?bk)" | "p \<in> set (flatten ?sd)"
    | "p \<in> set (flatten ?up)" | "p = Require ?rs ''/etcd/upgrade''" | "p \<in> set (flatten ?rt)"
    using assms(1) unfolding etcdPlan_flatten by auto
  then show ?thesis
  proof cases
    case 1
    with assms(2) show ?thesis by (simp add: etcdPlan_sel)
  next
    case 2
    with assms(2) backup_flatten [of p l os] show ?thesis by simp
  next
    case 3
    with assms(2) shutdown_flatten [of p ?bk l os] backup_flatten [of _ l os]
    show ?thesis unfolding etcdPlan_flatten by fastforce
  next
    case 4
    with assms(2) upgrade_flatten [of p ?sd l os] shutdown_flatten [of _ ?bk l os]
    show ?thesis unfolding etcdPlan_flatten by fastforce
  next
    case 5
    with assms(2) have "r = ''/etcd/upgrade''" by (simp add: etcdPlan_restore_def)
    moreover have "''/etcd/upgrade'' \<in> ID ` set (flatten (etcdPlan G l os w cur des))"
      unfolding etcdPlan_flatten using up_self by auto
    moreover have "stageRank ''/etcd/upgrade'' < stageRank (ID p)"
      using 5 by (simp add: stageRank_def etcdPlan_restore_def ChildLiteral_def etcdRoot_def)
    ultimately show ?thesis by simp
  next
    case 6
    have rs: "flatten ?rs = [?rs]" by (rule restore_flatten)
    from 6 assms(2) restart_flatten [of p G ?rs ?up l os]
    have rk: "stageRank (ID p) = 5"
      and "r \<in> ID ` set (flatten ?rs) \<or> r \<in> ID ` set (flatten ?up)" by auto
    then consider "r = ''/etcd/restore''" | "r \<in> ID ` set (flatten ?up)"
      by (auto simp: rs)
    then show ?thesis
    proof cases
      case 1
      have "''/etcd/restore'' \<in> ID ` set (flatten (etcdPlan G l os w cur des))"
        unfolding etcdPlan_flatten by simp
      moreover have "stageRank ''/etcd/restore'' < 5"
        by (simp add: stageRank_def)
      ultimately show ?thesis using 1 rk by simp
    next
      case 2
      with upgrade_flatten [of _ ?sd l os] show ?thesis
        unfolding etcdPlan_flatten using rk by fastforce
    qed
  qed
qed

text \<open>
  The etcd plan keeps the invariant of the dependency references: in every etcd plan the
  builder constructs, every dependency reference of a phase is the path of a phase that
  stands strictly earlier in the pre-order of the tree (so it resolves to an existing
  phase and never points forward), and the dependency graph over the paths is acyclic.
\<close>

theorem etcdPlan_dependencies:
  "earlier [] (flatten (etcdPlan G l os w cur des))
   \<and> acyclic (set (edges (etcdPlan G l os w cur des)))"
proof
  show "earlier [] (flatten (etcdPlan G l os w cur des))"
    by (rule earlier_of_rank [where rank = stageRank])
       (use etcdPlan_sorted etcdPlan_requirements in auto)
  show "acyclic (set (edges (etcdPlan G l os w cur des)))"
  proof (rule acyclicI_order [where f = stageRank])
    fix a b assume "(a, b) \<in> set (edges (etcdPlan G l os w cur des))"
    then obtain p where "p \<in> set (flatten (etcdPlan G l os w cur des))"
      "b \<in> set (Requires p)" "a = ID p"
      by (auto simp: edges_def)
    then show "stageRank b < stageRank a"
      using etcdPlan_requirements by blast
  qed
qed


theorem etcdPlan_dependencies_witness:
  "earlier [] (flatten (etcdPlan ''gravity-site'' node1 [node2] [] ''3.3.0'' ''3.4.0''))
   \<and> acyclic (set (edges (etcdPlan ''gravity-site'' node1 [node2] [] ''3.3.0'' ''3.4.0'')))"
  using etcdPlan_dependencies [of "''gravity-site''" node1 "[node2]" "[]" "''3.3.0''" "''3.4.0''"]
  by simp

lemma targets_target:
  "targets s p \<longleftrightarrow> (\<exists>s'. target p = Some s' \<and> AdvertiseIP s' = AdvertiseIP s)"
  by (simp add: targets_def target_def split: option.splits)

lemma find_own:
  assumes "map target ps = map Some ms" "map ID ps = map f ms"
    "distinct (map AdvertiseIP ms)" "s \<in> set ms"
  shows "map_option ID (find (targets s) ps) = Some (f s)"
  using assms
proof (induction ms arbitrary: ps)
  case Nil
  then show ?case by simp
next
  case (Cons m ms)
  then obtain p ps' where ps: "ps = p # ps'" by (cases ps) auto
  with Cons.prems have p: "target p = Some m" "ID p = f m"
    and rest: "map target ps' = map Some ms" "map ID ps' = map f ms" by auto
  show ?case
  proof (cases "AdvertiseIP m = AdvertiseIP s")
    case True
    with Cons.prems(3,4) have "s = m" by force
    moreover have "targets s p" using p True by (simp add: targets_target)
    ultimately show ?thesis using p by (simp add: ps)
  next
    case False
    with Cons.prems(4) have "s \<in> set ms" by auto
    with Cons.IH [OF rest] Cons.prems(3) have "map_option ID (find (targets s) ps') = Some (f s)"
      by simp
    moreover have "\<not> targets s p" using p False by (simp add: targets_target)
    ultimately show ?thesis by (simp add: ps)
  qed
qed

lemma DependencyForServer_own:
  assumes "map target (Phases ph) = map Some ms" "map ID (Phases ph) = map f ms"
    "distinct (map AdvertiseIP ms)" "s \<in> set ms"
  shows "DependencyForServer ph s = f s"
  using find_own [OF assms]
  by (auto simp: DependencyForServer_def split: option.splits)

lemma DependencyForServer_leaf: "Phases ph = [] \<Longrightarrow> DependencyForServer ph s = ID ph"
  by (simp add: DependencyForServer_def)

lemma etcdRoot_ID: "ID etcdRoot = ''/etcd''"
  by (simp add: etcdRoot_def)

lemma summary_proj:
  "map ID ps = map fst (map summary ps)"
  "map target ps = map (\<lambda>x. fst (snd (snd x))) (map summary ps)"
  by (simp_all add: summary_def)

lemma backup_children:
  "map summary (Phases (etcdPlan_backup etcdRoot l os)) =
     map (\<lambda>s. (''/etcd/backup/'' @ Hostname s, Some updateEtcdBackup, Some s, [])) (l # os)"
  by (simp add: etcdPlan_backup_eq etcdRoot_ID summary_def target_def noData_def)

lemma shutdown_children:
  assumes "distinct (map AdvertiseIP (l # os))"
  shows "map summary (Phases (etcdPlan_shutdown etcdRoot (etcdPlan_backup etcdRoot l os) l os)) =
     map (\<lambda>s. (''/etcd/shutdown/'' @ Hostname s, Some updateEtcdShutdown, Some s,
                [''/etcd/backup/'' @ Hostname s])) (l # os)"
proof -
  have dep: "DependencyForServer (etcdPlan_backup etcdRoot l os) s = ''/etcd/backup/'' @ Hostname s"
    if "s \<in> set (l # os)" for s
    by (rule DependencyForServer_own [where ms = "l # os"])
       (use that assms in \<open>simp_all add: summary_proj [of "Phases _"] backup_children\<close>)
  show ?thesis
    by (simp add: etcdPlan_shutdown_eq etcdRoot_ID summary_def target_def noData_def dep)
qed

lemma upgrade_children:
  assumes "distinct (map AdvertiseIP (l # os))"
  shows "map summary (Phases (etcdPlan_upgrade etcdRoot
            (etcdPlan_shutdown etcdRoot (etcdPlan_backup etcdRoot l os) l os) l os)) =
     map (\<lambda>s. (''/etcd/upgrade/'' @ Hostname s, Some updateEtcdMaster, Some s,
                [''/etcd/shutdown/'' @ Hostname s])) (l # os)"
proof -
  have dep: "DependencyForServer
       (etcdPlan_shutdown etcdRoot (etcdPlan_backup etcdRoot l os) l os) s =
       ''/etcd/shutdown/'' @ Hostname s"
    if "s \<in> set (l # os)" for s
    by (rule DependencyForServer_own [where ms = "l # os"])
       (use that assms in \<open>simp_all add: summary_proj [of "Phases _"] shutdown_children [OF assms]\<close>)
  show ?thesis
    by (simp add: etcdPlan_upgrade_eq etcdRoot_ID summary_def target_def noData_def dep)
qed

lemma restart_children:
  assumes "distinct (map AdvertiseIP (l # os))"
  shows "map summary (Phases (etcdPlan_restart G etcdRoot (etcdPlan_restore etcdRoot l)
            (etcdPlan_upgrade etcdRoot
              (etcdPlan_shutdown etcdRoot (etcdPlan_backup etcdRoot l os) l os) l os) l os)) =
     (''/etcd/restart/'' @ Hostname l, Some updateEtcdRestart, Some l, [''/etcd/restore''])
     # map (\<lambda>s. (''/etcd/restart/'' @ Hostname s, Some updateEtcdRestart, Some s,
                  [''/etcd/upgrade/'' @ Hostname s])) os
     @ [(''/etcd/restart/'' @ G, Some updateEtcdRestartGravity, Some l, [])]"
proof -
  have dep: "DependencyForServer (etcdPlan_upgrade etcdRoot
       (etcdPlan_shutdown etcdRoot (etcdPlan_backup etcdRoot l os) l os) l os) s =
       ''/etcd/upgrade/'' @ Hostname s"
    if "s \<in> set (l # os)" for s
    by (rule DependencyForServer_own [where ms = "l # os"])
       (use that assms in \<open>simp_all add: summary_proj [of "Phases _"] upgrade_children [OF assms]\<close>)
  have rs: "DependencyForServer (etcdPlan_restore etcdRoot l) l = ''/etcd/restore''"
    by (simp add: DependencyForServer_leaf etcdPlan_restore_def ChildLiteral_def etcdRoot_ID)
  show ?thesis
    by (simp add: etcdPlan_restart_eq etcdRoot_ID summary_def target_def noData_def dep rs)
qed

lemma restore_summary:
  "summary (Require (etcdPlan_restore etcdRoot l) x) =
     (''/etcd/restore'', Some updateEtcdRestore, Some l, [x])"
  "Phases (etcdPlan_restore etcdRoot l) = []"
  by (simp_all add: summary_def target_def etcdPlan_restore_def ChildLiteral_def etcdRoot_ID
      noData_def)

lemma stage_summary:
  "summary (etcdPlan_backup etcdRoot l os) = (''/etcd/backup'', None, None, [])"
  "summary (etcdPlan_shutdown etcdRoot bk l os) = (''/etcd/shutdown'', None, None, [])"
  "summary (etcdPlan_upgrade etcdRoot sd l os) = (''/etcd/upgrade'', None, None, [])"
  "summary (etcdPlan_restart G etcdRoot rs up l os) = (''/etcd/restart'', None, None, [])"
  by (simp_all add: etcdPlan_backup_eq etcdPlan_shutdown_eq etcdPlan_upgrade_eq
      etcdPlan_restart_eq etcdRoot_ID summary_def target_def)

lemma stage_leaves:
  "concat (map Phases (Phases (etcdPlan_backup etcdRoot l os))) = []"
  "concat (map Phases (Phases (etcdPlan_shutdown etcdRoot bk l os))) = []"
  "concat (map Phases (Phases (etcdPlan_upgrade etcdRoot sd l os))) = []"
  "concat (map Phases (Phases (etcdPlan_restart G etcdRoot rs up l os))) = []"
  by (simp_all add: etcdPlan_backup_eq etcdPlan_shutdown_eq etcdPlan_upgrade_eq
      etcdPlan_restart_eq comp_def)

lemma stage_flatten:
  "flatten (etcdPlan_backup etcdRoot l os) =
     etcdPlan_backup etcdRoot l os # Phases (etcdPlan_backup etcdRoot l os)"
  "flatten (etcdPlan_shutdown etcdRoot bk l os) =
     etcdPlan_shutdown etcdRoot bk l os # Phases (etcdPlan_shutdown etcdRoot bk l os)"
  "flatten (etcdPlan_upgrade etcdRoot sd l os) =
     etcdPlan_upgrade etcdRoot sd l os # Phases (etcdPlan_upgrade etcdRoot sd l os)"
  "flatten (etcdPlan_restart G etcdRoot rs up l os) =
     etcdPlan_restart G etcdRoot rs up l os
     # Phases (etcdPlan_restart G etcdRoot rs up l os)"
  by (subst flatten_sel, subst flatten_leaves;
      auto simp: etcdPlan_backup_eq etcdPlan_shutdown_eq etcdPlan_upgrade_eq
        etcdPlan_restart_eq)+

text \<open>The edges of a list of phases are read off the summaries of the phases.\<close>

lemma edges_of_summary:
  "concat (map (\<lambda>p. map (\<lambda>r. (ID p, r)) (Requires p)) ps) =
     concat (map (\<lambda>(i, e, t, rs). map (\<lambda>r. (i, r)) rs) (map summary ps))"
  by (simp add: summary_def comp_def)

lemma etcd_edge_list:
  assumes "distinct (map AdvertiseIP (l # os))"
  shows "edges (etcdPlan G l os w cur des) =
     map (\<lambda>s. (''/etcd/shutdown/'' @ Hostname s, ''/etcd/backup/'' @ Hostname s)) (l # os)
     @ map (\<lambda>s. (''/etcd/upgrade/'' @ Hostname s, ''/etcd/shutdown/'' @ Hostname s)) (l # os)
     @ [(''/etcd/restore'', ''/etcd/upgrade''),
        (''/etcd/restart/'' @ Hostname l, ''/etcd/restore'')]
     @ map (\<lambda>s. (''/etcd/restart/'' @ Hostname s, ''/etcd/upgrade/'' @ Hostname s)) os"
proof -
  have single: "concat (map (\<lambda>s. [f s]) xs) = map f xs" for f :: "Server \<Rightarrow> string \<times> string" and xs
    by (induction xs) simp_all
  have none: "concat (map (\<lambda>s. []) xs) = ([] :: (string \<times> string) list)" for xs :: "Server list"
    by (induction xs) simp_all
  show ?thesis
    unfolding edges_def etcdPlan_flatten stage_flatten
    by (simp add: etcdPlan_sel edges_of_summary [of "Phases _"] backup_children
        shutdown_children [OF assms] upgrade_children [OF assms] restart_children [OF assms]
        comp_def single none)
       (simp add: etcdPlan_backup_eq etcdPlan_shutdown_eq etcdPlan_upgrade_eq
          etcdPlan_restart_eq etcdPlan_restore_def ChildLiteral_def etcdRoot_ID)
qed

text \<open>
  C5, as the claim states it, fails: the restore phase is attached sequentially after
  the upgrade stage and requires that stage, not the shutdown stage; the restart phase
  of the lead node requires the restore phase, not the upgrade phase of the lead node
  nor the upgrade stage.
\<close>

theorem etcdPlan_restore_after_upgrade:
  "Requires (Phases (etcdPlan ''gravity-site'' node1 [node2] [] ''3.3.0'' ''3.4.0'') ! 3) =
     [''/etcd/upgrade'']
   \<and> Requires (hd (Phases (Phases (etcdPlan ''gravity-site'' node1 [node2] [] ''3.3.0'' ''3.4.0'') ! 4))) =
     [''/etcd/restore'']"
  by (simp add: etcdPlan_Phases etcdPlan_restore_def etcdPlan_restart_eq
      DependencyForServer_leaf ChildLiteral_def etcdRoot_ID)

text \<open>
  C5, amended. For masters of pairwise distinct advertise addresses the etcd plan is a
  root without executor or requirement that holds the five stages backup, shutdown,
  upgrade, restore and restart, in this order. The stages backup, shutdown, upgrade and
  restart are grouping phases (no executor, no target) that require nothing; their
  sub-phases have no sub-phases of their own. For every master X: the backup phase of X
  (executor \<open>updateEtcdBackup\<close>) requires nothing; the shutdown phase of X
  (\<open>updateEtcdShutdown\<close>) requires only the backup phase of X; the upgrade phase of X
  (\<open>updateEtcdMaster\<close>) requires only the shutdown phase of X. The restore stage is a
  single phase without sub-phases (\<open>updateEtcdRestore\<close>), targets the lead node and
  requires only the upgrade stage. The restart phase (\<open>updateEtcdRestart\<close>) of the
  lead node requires only the restore phase; the restart phase of every other master X
  requires only the upgrade phase of X; one more phase of the restart stage
  (\<open>updateEtcdRestartGravity\<close>), which targets the lead node and requires nothing,
  restarts the control service. These are all the dependency edges of the plan.
\<close>

theorem etcdPlan_edges:
  assumes "distinct (map AdvertiseIP (leadMaster # otherMasters))"
  shows
    "summary (etcdPlan G leadMaster otherMasters workers cur des) = (''/etcd'', None, None, [])
     \<and> map summary (Phases (etcdPlan G leadMaster otherMasters workers cur des)) =
         [(''/etcd/backup'', None, None, []),
          (''/etcd/shutdown'', None, None, []),
          (''/etcd/upgrade'', None, None, []),
          (''/etcd/restore'', Some updateEtcdRestore, Some leadMaster, [''/etcd/upgrade'']),
          (''/etcd/restart'', None, None, [])]
     \<and> map summary (Phases (Phases (etcdPlan G leadMaster otherMasters workers cur des) ! 0)) =
         map (\<lambda>s. (''/etcd/backup/'' @ Hostname s, Some updateEtcdBackup, Some s, []))
           (leadMaster # otherMasters)
     \<and> map summary (Phases (Phases (etcdPlan G leadMaster otherMasters workers cur des) ! 1)) =
         map (\<lambda>s. (''/etcd/shutdown/'' @ Hostname s, Some updateEtcdShutdown, Some s,
                    [''/etcd/backup/'' @ Hostname s])) (leadMaster # otherMasters)
     \<and> map summary (Phases (Phases (etcdPlan G leadMaster otherMasters workers cur des) ! 2)) =
         map (\<lambda>s. (''/etcd/upgrade/'' @ Hostname s, Some updateEtcdMaster, Some s,
                    [''/etcd/shutdown/'' @ Hostname s])) (leadMaster # otherMasters)
     \<and> Phases (Phases (etcdPlan G leadMaster otherMasters workers cur des) ! 3) = []
     \<and> map summary (Phases (Phases (etcdPlan G leadMaster otherMasters workers cur des) ! 4)) =
         (''/etcd/restart/'' @ Hostname leadMaster, Some updateEtcdRestart, Some leadMaster,
          [''/etcd/restore''])
         # map (\<lambda>s. (''/etcd/restart/'' @ Hostname s, Some updateEtcdRestart, Some s,
                      [''/etcd/upgrade/'' @ Hostname s])) otherMasters
         @ [(''/etcd/restart/'' @ G, Some updateEtcdRestartGravity, Some leadMaster, [])]
     \<and> concat (map Phases (concat (map Phases
           (Phases (etcdPlan G leadMaster otherMasters workers cur des))))) = []
     \<and> edges (etcdPlan G leadMaster otherMasters workers cur des) =
         map (\<lambda>s. (''/etcd/shutdown/'' @ Hostname s, ''/etcd/backup/'' @ Hostname s))
           (leadMaster # otherMasters)
         @ map (\<lambda>s. (''/etcd/upgrade/'' @ Hostname s, ''/etcd/shutdown/'' @ Hostname s))
             (leadMaster # otherMasters)
         @ [(''/etcd/restore'', ''/etcd/upgrade''),
            (''/etcd/restart/'' @ Hostname leadMaster, ''/etcd/restore'')]
         @ map (\<lambda>s. (''/etcd/restart/'' @ Hostname s, ''/etcd/upgrade/'' @ Hostname s))
             otherMasters"
proof -
  have root: "summary (etcdPlan G leadMaster otherMasters workers cur des) =
      (''/etcd'', None, None, [])"
    by (simp add: summary_def etcdPlan_sel target_def)
       (simp add: etcdPlan_def Let_def)
  show ?thesis
    unfolding etcd_edge_list [OF assms]
    by (simp add: root etcdPlan_Phases backup_children shutdown_children [OF assms]
        upgrade_children [OF assms] restart_children [OF assms] restore_summary
        stage_summary stage_leaves)
qed

theorem etcdPlan_edges_witness:
  "map summary (Phases (Phases (etcdPlan ''gravity-site'' node1 [node2] [] ''3.3.0'' ''3.4.0'') ! 1)) =
     [(''/etcd/shutdown/node-1'', Some updateEtcdShutdown, Some node1, [''/etcd/backup/node-1'']),
      (''/etcd/shutdown/node-2'', Some updateEtcdShutdown, Some node2, [''/etcd/backup/node-2''])]
   \<and> edges (etcdPlan ''gravity-site'' node1 [node2] [] ''3.3.0'' ''3.4.0'') =
     [(''/etcd/shutdown/node-1'', ''/etcd/backup/node-1''),
      (''/etcd/shutdown/node-2'', ''/etcd/backup/node-2''),
      (''/etcd/upgrade/node-1'', ''/etcd/shutdown/node-1''),
      (''/etcd/upgrade/node-2'', ''/etcd/shutdown/node-2''),
      (''/etcd/restore'', ''/etcd/upgrade''),
      (''/etcd/restart/node-1'', ''/etcd/restore''),
      (''/etcd/restart/node-2'', ''/etcd/upgrade/node-2'')]"
  using etcdPlan_edges [of node1 "[node2]" "''gravity-site''" "[]" "''3.3.0''" "''3.4.0''"]
  by (simp add: node1_def node2_def)

section \<open>Properties of the master sequence\<close>

lemma elections_sel:
  "elections p =
     (if isElection p then [electionSummary p] else []) @ concat (map elections (Phases p))"
  unfolding elections_def
  by (subst flatten_sel) (simp add: filter_concat map_concat comp_def)

lemma elections_Require [simp]: "elections (Require q x) = elections q"
  by (subst (1 2) elections_sel) (simp add: isElection_def electionSummary_def)

lemma elections_leaf:
  "Phases p = [] \<Longrightarrow> elections p = (if isElection p then [electionSummary p] else [])"
  by (subst elections_sel) simp

lemma elections_node:
  "Executor n \<noteq> Some electionStatus \<Longrightarrow> Phases n = [] \<Longrightarrow>
     elections (AddSequential n cs) = concat (map elections cs)"
  by (subst elections_sel) (simp add: isElection_def map_Phases_AddSequential)

lemma serversToStorage_eq [simp]: "serversToStorage us = map UServer us"
proof -
  have "foldl (\<lambda>result u. result @ [UServer u]) acc us = acc @ map UServer us" for acc
    by (induction us arbitrary: acc) simp_all
  then show ?thesis by (simp add: serversToStorage_def)
qed

lemma elections_commonNode:
  "concat (map elections (commonNode server leadMaster t w ec)) =
     (if enable ec = [] \<and> disable ec = [] then []
      else [(electionChanges_ID ec, enable ec, disable ec)])"
  by (simp add: commonNode_def Let_def elections_leaf isElection_def electionSummary_def
      setLeaderElection_def shouldAddPhase_def noData_def)

lemma elections_masters_lead:
  "elections (masters_lead leadMaster otherMasters t root) =
     (if otherMasters = [] then []
      else [(''stepdown'', [], [UServer leadMaster]),
            (''elect'', [UServer leadMaster], map UServer otherMasters)])"
proof -
  have n: "Executor (node s root f) \<noteq> Some electionStatus" "Phases (node s root f) = []" for s f
    by (simp_all add: node_def)
  show ?thesis
    unfolding masters_lead_def Let_def
    apply (subst elections_sel)
    apply (simp add: map_Phases_AddSequential isElection_def n elections_commonNode
        electionChanges_zero_def electionChanges_ID_def)
    apply (simp add: node_def elections_leaf isElection_def electionSummary_def
        setLeaderElection_def electionChanges_ID_def noData_def)
    done
qed

lemma elections_masters_other:
  "map elections (Phases (masters_other leadMaster t root server)) =
     map elections (Phases root) @ [[(''elect'', [UServer server], [])]]"
  unfolding masters_other_def Let_def
  by (simp add: map_Phases_AddSequential elections_node node_def elections_commonNode
      electionChanges_ID_def)

lemma elections_foldl_masters_other:
  "map elections (Phases (foldl (masters_other leadMaster t) root otherMasters)) =
     map elections (Phases root) @ map (\<lambda>s. [(''elect'', [UServer s], [])]) otherMasters"
  by (induction otherMasters arbitrary: root) (simp_all add: elections_masters_other)

lemma masters_other_sel [simp]:
  "Executor (masters_other leadMaster t root server) = Executor root"
  "ID (masters_other leadMaster t root server) = ID root"
  by (simp_all add: masters_other_def Let_def)

lemma foldl_masters_other_sel [simp]:
  "Executor (foldl (masters_other leadMaster t) root otherMasters) = Executor root"
  "ID (foldl (masters_other leadMaster t) root otherMasters) = ID root"
  by (induction otherMasters arbitrary: root) simp_all

lemma Phases_masters_other:
  "Phases (masters_other leadMaster t root server) = Phases root @
     [hd (drop (length (Phases root)) (Phases (masters_other leadMaster t root server)))]"
  by (simp add: masters_other_def Let_def AddSequential_Cons addSequential1_def)

lemma hd_foldl_masters_other:
  "Phases root \<noteq> [] \<Longrightarrow>
     hd (Phases (foldl (masters_other leadMaster t) root otherMasters)) = hd (Phases root)"
proof (induction otherMasters arbitrary: root)
  case Nil
  then show ?case by simp
next
  case (Cons s ss)
  have "Phases (masters_other leadMaster t root s) \<noteq> []"
    "hd (Phases (masters_other leadMaster t root s)) = hd (Phases root)"
    using Cons.prems by (subst Phases_masters_other, simp)+
  with Cons.IH [of "masters_other leadMaster t root s"] show ?case by simp
qed

lemma elections_masters_single: "elections (masters leadMaster [] t) = []"
proof -
  let ?root = "RootPhase (Phase ''masters'' None (Text ''Update master nodes'') [] [] None)"
  have "elections (masters leadMaster [] t) =
      concat (map elections (Phases (AddSequential ?root [masters_lead leadMaster [] t ?root])))"
    by (subst elections_sel) (simp add: masters_def Let_def isElection_def RootPhase_def withID_def)
  then show ?thesis
    by (simp add: map_Phases_AddSequential elections_masters_lead RootPhase_def withID_def)
qed

text \<open>
  C2, as the claim states it, fails: with a single master the plan has no leader
  election phase at all, so leadership is not enabled again at the end.
\<close>

theorem masters_single_no_election:
  "elections (masters master1 [] True) = []
   \<and> map Executor (flatten (masters master1 [] True)) =
     [None, None, Some drainNode, Some updateSystem, Some nodeHealth, Some taintNode,
      Some uncordonNode, Some endpoints, Some untaintNode]"
  by (simp add: elections_masters_single)
     (simp add: masters_def masters_lead_def Let_def commonNode_def node_def
        shouldAddPhase_def electionChanges_zero_def AddSequential_def addSequential1_def
        RootPhase_def withID_def withPhases_def Require_def)

text \<open>
  C2, amended. With exactly one master the masters phase has no leader election phase
  at all (no stepdown, and none that enables leadership), and the sequence of the lead
  node has the endpoint wait. With more than one master the election phases are, in
  this order: one stepdown phase, which enables no server and disables the lead node;
  one phase that enables the lead node and disables the other masters; and one phase
  per other master that enables that master. The sequence of the lead node then has no
  endpoint wait.
\<close>

theorem masters_elections:
  "elections (masters leadMaster otherMasters t) =
     (if otherMasters = [] then []
      else (''stepdown'', [], [UServer leadMaster])
           # (''elect'', [UServer leadMaster], map UServer otherMasters)
           # map (\<lambda>s. (''elect'', [UServer s], [])) otherMasters)
   \<and> map Executor (Phases (hd (Phases (masters leadMaster otherMasters t)))) =
     (if otherMasters = [] then
        [Some drainNode, Some updateSystem, Some nodeHealth]
        @ (if t then [Some taintNode] else [])
        @ [Some uncordonNode, Some endpoints]
        @ (if t then [Some untaintNode] else [])
      else
        [Some kubeletPermissions, Some electionStatus, Some drainNode, Some updateSystem,
         Some electionStatus, Some nodeHealth]
        @ (if t then [Some taintNode] else [])
        @ [Some uncordonNode]
        @ (if t then [Some untaintNode] else []))"
proof
  let ?root = "RootPhase (Phase ''masters'' None (Text ''Update master nodes'') [] [] None)"
  let ?r1 = "AddSequential ?root [masters_lead leadMaster otherMasters t ?root]"
  have m: "masters leadMaster otherMasters t = foldl (masters_other leadMaster t) ?r1 otherMasters"
    by (simp add: masters_def Let_def)
  have r1: "Phases ?r1 = [masters_lead leadMaster otherMasters t ?root]"
    by (simp add: AddSequential_Cons addSequential1_def RootPhase_def withID_def)
  have "elections (masters leadMaster otherMasters t) =
      concat (map elections (Phases (masters leadMaster otherMasters t)))"
    by (subst elections_sel) (simp add: m isElection_def RootPhase_def withID_def)
  also have "\<dots> = elections (masters_lead leadMaster otherMasters t ?root)
      @ concat (map (\<lambda>s. [(''elect'', [UServer s], [])]) otherMasters)"
    by (simp add: m elections_foldl_masters_other r1)
  also have "concat (map (\<lambda>s. [(''elect'', [UServer s], [])]) otherMasters) =
      map (\<lambda>s. (''elect'', [UServer s], [])) otherMasters"
    by (induction otherMasters) simp_all
  finally show "elections (masters leadMaster otherMasters t) =
     (if otherMasters = [] then []
      else (''stepdown'', [], [UServer leadMaster])
           # (''elect'', [UServer leadMaster], map UServer otherMasters)
           # map (\<lambda>s. (''elect'', [UServer s], [])) otherMasters)"
    by (simp add: elections_masters_lead)
  have "hd (Phases (masters leadMaster otherMasters t)) = masters_lead leadMaster otherMasters t ?root"
    by (simp add: m hd_foldl_masters_other r1)
  then show "map Executor (Phases (hd (Phases (masters leadMaster otherMasters t)))) =
     (if otherMasters = [] then
        [Some drainNode, Some updateSystem, Some nodeHealth]
        @ (if t then [Some taintNode] else [])
        @ [Some uncordonNode, Some endpoints]
        @ (if t then [Some untaintNode] else [])
      else
        [Some kubeletPermissions, Some electionStatus, Some drainNode, Some updateSystem,
         Some electionStatus, Some nodeHealth]
        @ (if t then [Some taintNode] else [])
        @ [Some uncordonNode]
        @ (if t then [Some untaintNode] else []))"
    by (simp add: masters_lead_def Let_def map_Phases_AddSequential node_def
        electionChanges_zero_def setLeaderElection_def commonNode_def shouldAddPhase_def)
qed

theorem masters_elections_witness:
  "elections (masters master1 [master2] True) =
     [(''stepdown'', [], [node1]), (''elect'', [node1], [node2]), (''elect'', [node2], [])]
   \<and> map Executor (Phases (hd (Phases (masters master1 [] True)))) =
     [Some drainNode, Some updateSystem, Some nodeHealth, Some taintNode, Some uncordonNode,
      Some endpoints, Some untaintNode]"
  using masters_elections [of master1 "[master2]" True] masters_elections [of master1 "[]" True]
  by (simp add: master1_def master2_def)


end
